theory Spec2Isabelle
  imports Complex_Main "HOL-Library.Multiset"
begin

section \<open>Arrays and errors\<close>

text \<open>
  The constraint layer of \<^verbatim>\<open>skmp/constraint.py\<close> works on NumPy arrays of floats.
  Array entries are modelled as real numbers: rounding is not modelled, the layout of
  the arrays and the exact arithmetic are. A one-dimensional array is a list, a
  two-dimensional array of shape \<open>(n, m)\<close> is the list of its \<open>n\<close> rows, a
  three-dimensional array of shape \<open>(n, m, d)\<close> is the list of its \<open>n\<close> matrices. Rows of
  one array have one length, as in NumPy; an array without rows does not show its
  column count.
\<close>

type_synonym vec = "real list"
type_synonym mat = "real list list"
type_synonym tensor = "real list list list"

text \<open>Every \<^verbatim>\<open>raise\<close> and failed \<^verbatim>\<open>assert\<close> of the source is a value.\<close>

datatype error =
    RuntimeError string
  | ValueError
  | AssertionError
  | IndexError
  | AttributeError
  | UnboundLocalError

text \<open>
  \<^verbatim>\<open>AbstractConst.dummy_jacobian\<close> returns \<^verbatim>\<open>np.array([[np.nan]])\<close>. The second
  component of a result of \<^verbatim>\<open>evaluate\<close> is therefore either that placeholder or a
  three-dimensional array of Jacobians.
\<close>

datatype jac = dummy_jacobian | Jacobian tensor

text \<open>
  Elementwise operations on one-dimensional arrays broadcast as NumPy does: equal
  lengths pair up, an operand of length one is repeated, anything else raises.
\<close>

definition broadcast2 :: "(real \<Rightarrow> real \<Rightarrow> 'c) \<Rightarrow> vec \<Rightarrow> vec \<Rightarrow> error + 'c list" where
  "broadcast2 f xs ys =
     (if length xs = length ys then Inr (map2 f xs ys)
      else if length ys = 1 then Inr (map (\<lambda>x. f x (hd ys)) xs)
      else if length xs = 1 then Inr (map (\<lambda>y. f (hd xs) y) ys)
      else Inl ValueError)"

fun mapM :: "('a \<Rightarrow> error + 'b) \<Rightarrow> 'a list \<Rightarrow> error + 'b list" where
  "mapM f [] = Inr []"
| "mapM f (x # xs) =
     (case f x of
        Inl e \<Rightarrow> Inl e
      | Inr y \<Rightarrow> (case mapM f xs of Inl e \<Rightarrow> Inl e | Inr ys \<Rightarrow> Inr (y # ys)))"

text \<open>\<^verbatim>\<open>qs - v\<close> and \<^verbatim>\<open>v - qs\<close> for a two-dimensional \<open>qs\<close> and a one-dimensional \<open>v\<close>.\<close>

definition mat_sub_vec :: "mat \<Rightarrow> vec \<Rightarrow> error + mat" where
  "mat_sub_vec qs v = mapM (\<lambda>q. broadcast2 (\<lambda>a b. a - b) q v) qs"

definition vec_sub_mat :: "vec \<Rightarrow> mat \<Rightarrow> error + mat" where
  "vec_sub_mat v qs = mapM (\<lambda>q. broadcast2 (\<lambda>a b. a - b) v q) qs"

text \<open>
  \<^verbatim>\<open>a.reshape(n, -1)\<close> of row-major data: the column count is inferred, which NumPy
  refuses when \<open>n = 0\<close> or when \<open>n\<close> does not divide the size.
\<close>

definition chunks :: "nat \<Rightarrow> nat \<Rightarrow> 'a list \<Rightarrow> 'a list list" where
  "chunks n m xs = map (\<lambda>i. take m (drop (i * m) xs)) [0..<n]"

definition reshape_rows :: "nat \<Rightarrow> vec \<Rightarrow> error + mat" where
  "reshape_rows n xs =
     (if n = 0 \<or> length xs mod n \<noteq> 0 then Inl ValueError
      else Inr (chunks n (length xs div n) xs))"

text \<open>\<^verbatim>\<open>a.reshape(n, -1, d)\<close> of row-major data.\<close>

definition reshape_tensor :: "nat \<Rightarrow> nat \<Rightarrow> vec \<Rightarrow> error + tensor" where
  "reshape_tensor n d xs =
     (if n * d = 0 \<or> length xs mod (n * d) \<noteq> 0 then Inl ValueError
      else Inr (map (chunks (length xs div (n * d)) d)
                  (chunks n (length xs div n) xs)))"

definition eye :: "nat \<Rightarrow> mat" where
  "eye d = map (\<lambda>i. map (\<lambda>j. if i = j then 1 else 0) [0..<d]) [0..<d]"

text \<open>\<^verbatim>\<open>n_point, dim = qs.shape\<close>.\<close>

definition n_rows :: "mat \<Rightarrow> nat" where
  "n_rows qs = length qs"

definition n_cols :: "mat \<Rightarrow> nat" where
  "n_cols qs = (case qs of [] \<Rightarrow> 0 | q # _ \<Rightarrow> length q)"

section \<open>Box limits\<close>

text \<open>
  \<^verbatim>\<open>BoxConst._evaluate\<close>: both margins are flattened, the two flat arrays are joined
  and the result is cut into \<open>n_point\<close> rows.
\<close>

definition BoxConst_evaluate :: "vec \<Rightarrow> vec \<Rightarrow> mat \<Rightarrow> bool \<Rightarrow> error + (mat \<times> jac)" where
  "BoxConst_evaluate lb ub qs with_jacobian =
     (let n_point = n_rows qs; dim = n_cols qs in
      case mat_sub_vec qs lb of
        Inl e \<Rightarrow> Inl e
      | Inr lower \<Rightarrow>
     (case vec_sub_mat ub qs of
        Inl e \<Rightarrow> Inl e
      | Inr upper \<Rightarrow>
     (let f_lower = concat lower; f_upper = concat upper in
      case reshape_rows n_point (f_lower @ f_upper) of
        Inl e \<Rightarrow> Inl e
      | Inr f \<Rightarrow>
          Inr (f, if with_jacobian
                  then Jacobian (replicate n_point (eye dim @ map (map uminus) (eye dim)))
                  else dummy_jacobian))))"

section \<open>The other constraint classes\<close>

text \<open>
  \<^verbatim>\<open>ConfigPointConst._evaluate\<close>: the residual is \<^verbatim>\<open>qs - desired_angles\<close>, the Jacobian
  one identity matrix per configuration.
\<close>

definition ConfigPointConst_evaluate :: "vec \<Rightarrow> mat \<Rightarrow> bool \<Rightarrow> error + (mat \<times> jac)" where
  "ConfigPointConst_evaluate desired_angles qs with_jacobian =
     (let n_point = n_rows qs; dim = n_cols qs in
      case mat_sub_vec qs desired_angles of
        Inl e \<Rightarrow> Inl e
      | Inr val \<Rightarrow>
          Inr (val, if with_jacobian then Jacobian (replicate n_point (eye dim))
                    else dummy_jacobian))"

text \<open>
  \<^verbatim>\<open>PointCollFreeConst._evaluate\<close>. The signed-distance function \<open>sdf\<close> is the caller's:
  it maps a batch of points to one distance per point. For each dimension \<open>i\<close> the
  loop adds \<open>eps\<close> to column \<open>i\<close> of a copy of \<open>qs\<close> and stores the difference quotient
  with \<^verbatim>\<open>jacs_stacked[:, :, i] = ...\<close>: the target of that assignment has shape
  \<open>(n_point, 1)\<close>, so NumPy accepts a one-dimensional value only when its length is
  one, and writes it to every configuration. The flag \<open>with_jacobian\<close> is not read.
\<close>

definition eps :: real where
  "eps = 1 / 1000000"

definition add_to_column :: "nat \<Rightarrow> real \<Rightarrow> mat \<Rightarrow> mat" where
  "add_to_column i h qs = map (\<lambda>q. q[i := q ! i + h]) qs"

definition finite_difference :: "(mat \<Rightarrow> vec) \<Rightarrow> mat \<Rightarrow> vec \<Rightarrow> nat \<Rightarrow> error + real" where
  "finite_difference sdf qs fs i =
     (let qs1 = add_to_column i eps qs in
      case broadcast2 (\<lambda>a b. (a - b) / eps) (sdf qs1) fs of
        Inl e \<Rightarrow> Inl e
      | Inr col \<Rightarrow> (case col of [c] \<Rightarrow> Inr c | _ \<Rightarrow> Inl ValueError))"

definition PointCollFreeConst_evaluate ::
  "(mat \<Rightarrow> vec) \<Rightarrow> mat \<Rightarrow> bool \<Rightarrow> error + (mat \<times> jac)" where
  "PointCollFreeConst_evaluate sdf qs with_jacobian =
     (let n_point = n_rows qs; n_dim = n_cols qs; fs = sdf qs in
      case mapM (finite_difference sdf qs fs) [0..<n_dim] of
        Inl e \<Rightarrow> Inl e
      | Inr grad \<Rightarrow> Inr (map (\<lambda>f. [f]) fs, Jacobian (replicate n_point [grad])))"

text \<open>
  The end-effector kinematics map is a collaborator outside this repository's files.
  It is taken as a record: the robot state last reflected into it, and the function
  \<open>fk\<close> that computes, from that state and a batch of configurations, the poses and
  their Jacobians. Both results are only ever reshaped, so they are given by their
  row-major data.
\<close>

type_synonym RobotModel = "(string \<times> real) list"

record efkin =
  n_feature :: nat
  robot_state :: "RobotModel option"
  fk :: "RobotModel option \<Rightarrow> mat \<Rightarrow> vec \<times> vec"

definition efkin_map :: "efkin \<Rightarrow> mat \<Rightarrow> vec \<times> vec" where
  "efkin_map k qs = fk k (robot_state k) qs"

definition efkin_reflect_skrobot_model :: "efkin \<Rightarrow> RobotModel \<Rightarrow> efkin" where
  "efkin_reflect_skrobot_model k robot_model = k\<lparr>robot_state := Some robot_model\<rparr>"

text \<open>\<^verbatim>\<open>np.hstack\<close> of a list of one-dimensional arrays; an empty list raises.\<close>

definition hstack1 :: "vec list \<Rightarrow> error + vec" where
  "hstack1 vs = (if vs = [] then Inl ValueError else Inr (concat vs))"

text \<open>
  \<^verbatim>\<open>PoseConstraint._evaluate\<close>: the Jacobian of the kinematics map is returned whatever
  \<open>with_jacobian\<close> is.
\<close>

definition PoseConstraint_evaluate ::
  "vec list \<Rightarrow> efkin \<Rightarrow> mat \<Rightarrow> bool \<Rightarrow> error + (mat \<times> jac)" where
  "PoseConstraint_evaluate desired_poses k qs with_jacobian =
     (let n_point = n_rows qs; n_dim = n_cols qs;
          (xs_tmp, jacs_tmp) = efkin_map k qs in
      case reshape_rows n_point xs_tmp of
        Inl e \<Rightarrow> Inl e
      | Inr xs \<Rightarrow>
     (case reshape_tensor n_point n_dim jacs_tmp of
        Inl e \<Rightarrow> Inl e
      | Inr jacs \<Rightarrow>
     (case hstack1 desired_poses of
        Inl e \<Rightarrow> Inl e
      | Inr target \<Rightarrow>
     (case mat_sub_vec xs target of
        Inl e \<Rightarrow> Inl e
      | Inr values \<Rightarrow> Inr (values, Jacobian jacs)))))"

section \<open>Composition\<close>

text \<open>
  \<^verbatim>\<open>np.hstack\<close> of two-dimensional arrays joins them along axis 1: it needs at least
  one array, and all arrays must have the same number of rows.
\<close>

definition hstack :: "mat list \<Rightarrow> error + mat" where
  "hstack ms =
     (case ms of
        [] \<Rightarrow> Inl ValueError
      | m # _ \<Rightarrow>
          if \<forall>m' \<in> set ms. length m' = length m
          then Inr (map (\<lambda>i. concat (map (\<lambda>m'. m' ! i) ms)) [0..<length m])
          else Inl ValueError)"

text \<open>
  \<^verbatim>\<open>np.concatenate(jacs_list, axis=1)\<close> of three-dimensional arrays: the arrays must
  agree on axis 0 (the batch) and on axis 2 (the configuration dimension). The
  placeholder is two-dimensional and does not join three-dimensional arrays.
\<close>

fun the_tensors :: "jac list \<Rightarrow> tensor list option" where
  "the_tensors [] = Some []"
| "the_tensors (dummy_jacobian # js) = None"
| "the_tensors (Jacobian t # js) = map_option (Cons t) (the_tensors js)"

definition row_lengths :: "tensor list \<Rightarrow> nat list" where
  "row_lengths ts = map length (concat (concat ts))"

definition concatenate_axis1 :: "jac list \<Rightarrow> error + tensor" where
  "concatenate_axis1 js =
     (case the_tensors js of
        None \<Rightarrow> Inl ValueError
      | Some [] \<Rightarrow> Inl ValueError
      | Some (t # ts) \<Rightarrow>
          if (\<forall>t' \<in> set (t # ts). length t' = length t)
             \<and> (\<forall>d \<in> set (row_lengths (t # ts)). d = hd (row_lengths (t # ts)))
          then Inr (map (\<lambda>i. concat (map (\<lambda>t'. t' ! i) (t # ts))) [0..<length t])
          else Inl ValueError)"

text \<open>
  \<^verbatim>\<open>_CompositeConst._evaluate\<close> after its loop: \<open>rs\<close> holds the pairs the members
  returned, in member order.
\<close>

definition CompositeConst_combine :: "(mat \<times> jac) list \<Rightarrow> bool \<Rightarrow> error + (mat \<times> jac)" where
  "CompositeConst_combine rs with_jacobian =
     (let valuess_list = map fst rs; jacs_list = map snd rs in
      case hstack valuess_list of
        Inl e \<Rightarrow> Inl e
      | Inr valuess_out \<Rightarrow>
          if \<not> with_jacobian then Inr (valuess_out, dummy_jacobian)
          else (case concatenate_axis1 jacs_list of
                  Inl e \<Rightarrow> Inl e
                | Inr jacs_out \<Rightarrow> Inr (valuess_out, Jacobian jacs_out)))"

section \<open>Constraints\<close>

text \<open>
  A constraint object carries \<open>reflect_robot_flag\<close> and the fields of its class.
  \<open>OtherConst\<close> stands for the remaining subclasses of \<^verbatim>\<open>AbstractConst\<close>
  (\<^verbatim>\<open>CollFreeConst\<close>, \<^verbatim>\<open>ReducedCollisionFreeConst\<close>, \<^verbatim>\<open>RelativePoseConstraint\<close>,
  \<^verbatim>\<open>PairWiseSelfCollFreeConst\<close>, \<^verbatim>\<open>NeuralSelfCollFreeConst\<close>), whose bodies are
  computations of the kinematics, signed-distance and inference collaborators: such
  an object is given by its class name, its polarity, the robot state last
  reflected, the error its reflection raises without a robot model, and the function
  \<open>ev\<close> computing residuals and Jacobians from the reflected state. What these
  classes share is kept: each returns the placeholder when \<open>with_jacobian\<close> is false.
\<close>

datatype const =
    BoxConst (reflect_robot_flag: bool) (lb: vec) (ub: vec)
  | PointCollFreeConst (reflect_robot_flag: bool) (sdf: "mat \<Rightarrow> vec")
  | ConfigPointConst (reflect_robot_flag: bool) (desired_angles: vec)
  | PoseConstraint (reflect_robot_flag: bool) (desired_poses: "vec list") (efkin: efkin)
  | IneqCompositeConst (reflect_robot_flag: bool) (const_list: "const list")
  | EqCompositeConst (reflect_robot_flag: bool) (const_list: "const list")
  | OtherConst (reflect_robot_flag: bool) (class_name: string) (equality: bool)
      (reflected: "RobotModel option") (none_error: error)
      (ev: "RobotModel option \<Rightarrow> mat \<Rightarrow> bool \<Rightarrow> error + (mat \<times> tensor)")

text \<open>\<^verbatim>\<open>type(self).__name__\<close>.\<close>

fun type_name :: "const \<Rightarrow> string" where
  "type_name (BoxConst _ _ _) = ''BoxConst''"
| "type_name (PointCollFreeConst _ _) = ''PointCollFreeConst''"
| "type_name (ConfigPointConst _ _) = ''ConfigPointConst''"
| "type_name (PoseConstraint _ _ _) = ''PoseConstraint''"
| "type_name (IneqCompositeConst _ _) = ''IneqCompositeConst''"
| "type_name (EqCompositeConst _ _) = ''EqCompositeConst''"
| "type_name (OtherConst _ name _ _ _ _) = name"

fun is_equality :: "const \<Rightarrow> bool" where
  "is_equality (BoxConst _ _ _) = False"
| "is_equality (PointCollFreeConst _ _) = False"
| "is_equality (ConfigPointConst _ _) = True"
| "is_equality (PoseConstraint _ _ _) = True"
| "is_equality (IneqCompositeConst _ _) = False"
| "is_equality (EqCompositeConst _ _) = True"
| "is_equality (OtherConst _ _ eq _ _ _) = eq"

definition not_reflected_message :: "string \<Rightarrow> string" where
  "not_reflected_message name = name @ '': you need to call reflect_skrobot_model beforehand''"

text \<open>
  \<^verbatim>\<open>AbstractConst.evaluate\<close> is the gate on \<open>reflect_robot_flag\<close> in front of the class's
  \<^verbatim>\<open>_evaluate\<close> (here \<open>evaluate_body\<close>). \<open>evaluate_members\<close> is the loop of
  \<^verbatim>\<open>_CompositeConst._evaluate\<close>, which calls \<^verbatim>\<open>evaluate\<close> on each member in order and
  stops at the first member that raises.
\<close>

function evaluate :: "const \<Rightarrow> mat \<Rightarrow> bool \<Rightarrow> error + (mat \<times> jac)"
  and evaluate_body :: "const \<Rightarrow> mat \<Rightarrow> bool \<Rightarrow> error + (mat \<times> jac)"
  and evaluate_members :: "const list \<Rightarrow> mat \<Rightarrow> bool \<Rightarrow> error + (mat \<times> jac) list"
where
  "evaluate c qs with_jacobian =
     (if \<not> reflect_robot_flag c then Inl (RuntimeError (not_reflected_message (type_name c)))
      else evaluate_body c qs with_jacobian)"
| "evaluate_body (BoxConst _ l u) qs with_jacobian = BoxConst_evaluate l u qs with_jacobian"
| "evaluate_body (PointCollFreeConst _ s) qs with_jacobian =
     PointCollFreeConst_evaluate s qs with_jacobian"
| "evaluate_body (ConfigPointConst _ a) qs with_jacobian =
     ConfigPointConst_evaluate a qs with_jacobian"
| "evaluate_body (PoseConstraint _ ps k) qs with_jacobian =
     PoseConstraint_evaluate ps k qs with_jacobian"
| "evaluate_body (IneqCompositeConst _ cs) qs with_jacobian =
     (case evaluate_members cs qs with_jacobian of
        Inl e \<Rightarrow> Inl e
      | Inr rs \<Rightarrow> CompositeConst_combine rs with_jacobian)"
| "evaluate_body (EqCompositeConst _ cs) qs with_jacobian =
     (case evaluate_members cs qs with_jacobian of
        Inl e \<Rightarrow> Inl e
      | Inr rs \<Rightarrow> CompositeConst_combine rs with_jacobian)"
| "evaluate_body (OtherConst _ _ _ r _ f) qs with_jacobian =
     (case f r qs with_jacobian of
        Inl e \<Rightarrow> Inl e
      | Inr (values, jacs) \<Rightarrow>
          Inr (values, if with_jacobian then Jacobian jacs else dummy_jacobian))"
| "evaluate_members [] qs with_jacobian = Inr []"
| "evaluate_members (c # cs) qs with_jacobian =
     (case evaluate c qs with_jacobian of
        Inl e \<Rightarrow> Inl e
      | Inr r \<Rightarrow>
          (case evaluate_members cs qs with_jacobian of
             Inl e \<Rightarrow> Inl e
           | Inr rs \<Rightarrow> Inr (r # rs)))"
  by pat_completeness auto
termination
  by (relation "measure (\<lambda>x. case x of
          Inl (c, _, _) \<Rightarrow> 2 * size c + 1
        | Inr (Inl (c, _, _)) \<Rightarrow> 2 * size c
        | Inr (Inr (cs, _, _)) \<Rightarrow> 2 * size_list size cs + 1)") auto

text \<open>
  \<^verbatim>\<open>AbstractConst.reflect_skrobot_model\<close> runs the class's \<^verbatim>\<open>_reflect_skrobot_model\<close>
  (here \<open>reflect_body\<close>) and then sets the flag. The box, point and configuration
  classes do nothing there; the pose class asserts that a robot model is given and
  hands it to its kinematics map; a composite reflects every member in order. The
  source updates the objects in place; the model returns the updated object, and an
  error where the source raises.
\<close>

fun set_reflect_robot_flag :: "const \<Rightarrow> const" where
  "set_reflect_robot_flag (BoxConst _ l u) = BoxConst True l u"
| "set_reflect_robot_flag (PointCollFreeConst _ s) = PointCollFreeConst True s"
| "set_reflect_robot_flag (ConfigPointConst _ a) = ConfigPointConst True a"
| "set_reflect_robot_flag (PoseConstraint _ ps k) = PoseConstraint True ps k"
| "set_reflect_robot_flag (IneqCompositeConst _ cs) = IneqCompositeConst True cs"
| "set_reflect_robot_flag (EqCompositeConst _ cs) = EqCompositeConst True cs"
| "set_reflect_robot_flag (OtherConst _ name eq r e f) = OtherConst True name eq r e f"

function reflect_skrobot_model :: "const \<Rightarrow> RobotModel option \<Rightarrow> error + const"
  and reflect_body :: "const \<Rightarrow> RobotModel option \<Rightarrow> error + const"
  and reflect_members :: "const list \<Rightarrow> RobotModel option \<Rightarrow> error + const list"
where
  "reflect_skrobot_model c robot_model =
     (case reflect_body c robot_model of
        Inl e \<Rightarrow> Inl e
      | Inr c' \<Rightarrow> Inr (set_reflect_robot_flag c'))"
| "reflect_body (BoxConst b l u) robot_model = Inr (BoxConst b l u)"
| "reflect_body (PointCollFreeConst b s) robot_model = Inr (PointCollFreeConst b s)"
| "reflect_body (ConfigPointConst b a) robot_model = Inr (ConfigPointConst b a)"
| "reflect_body (PoseConstraint b ps k) robot_model =
     (case robot_model of
        None \<Rightarrow> Inl AssertionError
      | Some r \<Rightarrow> Inr (PoseConstraint b ps (efkin_reflect_skrobot_model k r)))"
| "reflect_body (IneqCompositeConst b cs) robot_model =
     (case reflect_members cs robot_model of
        Inl e \<Rightarrow> Inl e
      | Inr cs' \<Rightarrow> Inr (IneqCompositeConst b cs'))"
| "reflect_body (EqCompositeConst b cs) robot_model =
     (case reflect_members cs robot_model of
        Inl e \<Rightarrow> Inl e
      | Inr cs' \<Rightarrow> Inr (EqCompositeConst b cs'))"
| "reflect_body (OtherConst b name eq r e f) robot_model =
     (case robot_model of
        None \<Rightarrow> Inl e
      | Some r' \<Rightarrow> Inr (OtherConst b name eq (Some r') e f))"
| "reflect_members [] robot_model = Inr []"
| "reflect_members (c # cs) robot_model =
     (case reflect_skrobot_model c robot_model of
        Inl e \<Rightarrow> Inl e
      | Inr c' \<Rightarrow>
          (case reflect_members cs robot_model of
             Inl e \<Rightarrow> Inl e
           | Inr cs' \<Rightarrow> Inr (c' # cs')))"
  by pat_completeness auto
termination
  by (relation "measure (\<lambda>x. case x of
          Inl (c, _) \<Rightarrow> 2 * size c + 1
        | Inr (Inl (c, _)) \<Rightarrow> 2 * size c
        | Inr (Inr (cs, _)) \<Rightarrow> 2 * size_list size cs + 1)") auto

text \<open>
  The constructors. A class attribute gives every new object the flag \<open>False\<close>; the
  constructors of the box, point, configuration and pose classes end with a call of
  \<^verbatim>\<open>reflect_skrobot_model\<close>. \<^verbatim>\<open>_CompositeConst.__init__\<close> asserts that the members
  have the composite's polarity and sets the flag itself, without reflecting.
\<close>

definition BoxConst_init :: "vec \<Rightarrow> vec \<Rightarrow> error + const" where
  "BoxConst_init l u = reflect_skrobot_model (BoxConst False l u) None"

definition PointCollFreeConst_init :: "(mat \<Rightarrow> vec) \<Rightarrow> error + const" where
  "PointCollFreeConst_init s = reflect_skrobot_model (PointCollFreeConst False s) None"

definition ConfigPointConst_init :: "vec \<Rightarrow> error + const" where
  "ConfigPointConst_init a = reflect_skrobot_model (ConfigPointConst False a) None"

definition PoseConstraint_init :: "vec list \<Rightarrow> efkin \<Rightarrow> RobotModel option \<Rightarrow> error + const" where
  "PoseConstraint_init ps k robot_model =
     (if length ps \<noteq> n_feature k then Inl AssertionError
      else reflect_skrobot_model (PoseConstraint False ps k) robot_model)"

definition IneqCompositeConst_init :: "const list \<Rightarrow> error + const" where
  "IneqCompositeConst_init cs =
     (if list_all (\<lambda>c. is_equality c = False) cs then Inr (IneqCompositeConst True cs)
      else Inl AssertionError)"

definition EqCompositeConst_init :: "const list \<Rightarrow> error + const" where
  "EqCompositeConst_init cs =
     (if list_all (\<lambda>c. is_equality c = True) cs then Inr (EqCompositeConst True cs)
      else Inl AssertionError)"


section \<open>The planning problem\<close>

text \<open>
  \<^verbatim>\<open>Problem\<close> of \<^verbatim>\<open>skmp/solver/interface.py\<close>. The field \<^verbatim>\<open>motion_step_box_\<close> holds a
  number or an array. A trajectory is the list of its waypoints; the class
  \<^verbatim>\<open>Trajectory\<close> itself is outside this repository's files.
\<close>

type_synonym trajectory = "vec list"

record Problem =
  start :: vec
  box_const :: const
  goal_const :: const
  global_ineq_const :: "const option"
  global_eq_const :: "const option"
  eqconst_admissible_mse :: real
  motion_step_box_field :: "real + vec"
  skip_init_feasibility_check :: bool

definition join :: "string \<Rightarrow> string list \<Rightarrow> string" where
  "join sep xs = (case xs of [] \<Rightarrow> [] | x # ys \<Rightarrow> x @ concat (map (\<lambda>y. sep @ y) ys))"

definition doesnt_satisfy :: "string \<Rightarrow> string" where
  "doesnt_satisfy what = ''q_start doesn't satisfy '' @ what"

text \<open>
  \<^verbatim>\<open>Problem.check_init_feasibility\<close> calls \<^verbatim>\<open>is_valid\<close> on the global inequality
  constraint and on the members of a composite. No class of \<^verbatim>\<open>skmp/constraint.py\<close>
  defines or inherits a method of that name, so for every constraint object the
  attribute lookup raises \<^verbatim>\<open>AttributeError\<close>.
\<close>

definition is_valid :: "const \<Rightarrow> vec \<Rightarrow> error + bool" where
  "is_valid c q = Inl AttributeError"

text \<open>
  The loop over the members of a composite, and the branch of
  \<^verbatim>\<open>check_init_feasibility\<close> for a global inequality constraint. The text
  \<^verbatim>\<open>"{}".format(c)\<close> of a constraint object is Python's and is the parameter \<open>fmt\<close>.
\<close>

fun member_messages :: "(const \<Rightarrow> string) \<Rightarrow> const list \<Rightarrow> vec \<Rightarrow> error + string list" where
  "member_messages fmt [] q = Inr []"
| "member_messages fmt (c # cs) q =
     (case is_valid c q of
        Inl e \<Rightarrow> Inl e
      | Inr ok \<Rightarrow>
          (case member_messages fmt cs q of
             Inl e \<Rightarrow> Inl e
           | Inr ms \<Rightarrow> Inr ((if \<not> ok then [doesnt_satisfy (fmt c)] else []) @ ms)))"

definition ineq_messages :: "(const \<Rightarrow> string) \<Rightarrow> const \<Rightarrow> vec \<Rightarrow> error + string list" where
  "ineq_messages fmt g q =
     (case is_valid g q of
        Inl e \<Rightarrow> Inl e
      | Inr ok \<Rightarrow>
          if \<not> ok then
            (case g of
               IneqCompositeConst _ cs \<Rightarrow> member_messages fmt cs q
             | _ \<Rightarrow> Inr [doesnt_satisfy (fmt g)])
          else Inr [])"

text \<open>
  \<^verbatim>\<open>Problem.check_init_feasibility\<close>: the two box checks, then the global inequality
  constraint when there is one.
\<close>

definition box_messages :: "bool list \<Rightarrow> bool list \<Rightarrow> string list" where
  "box_messages below_ub above_lb =
     (if \<not> list_all id below_ub then [doesnt_satisfy ''BoxConst upper''] else [])
     @ (if \<not> list_all id above_lb then [doesnt_satisfy ''BoxConst lower''] else [])"

definition check_init_feasibility ::
  "(const \<Rightarrow> string) \<Rightarrow> Problem \<Rightarrow> error + (bool \<times> string)" where
  "check_init_feasibility fmt p =
     (if skip_init_feasibility_check p then Inr (True, [])
      else
        (case box_const p of
           BoxConst _ l u \<Rightarrow>
             (case broadcast2 (\<lambda>a b. a < b) (start p) u of
                Inl e \<Rightarrow> Inl e
              | Inr below_ub \<Rightarrow>
             (case broadcast2 (\<lambda>a b. a > b) (start p) l of
                Inl e \<Rightarrow> Inl e
              | Inr above_lb \<Rightarrow>
             (case (case global_ineq_const p of
                      None \<Rightarrow> Inr []
                    | Some g \<Rightarrow> ineq_messages fmt g (start p)) of
                Inl e \<Rightarrow> Inl e
              | Inr ineq \<Rightarrow>
                 (let msg_list = box_messages below_ub above_lb @ ineq;
                      is_init_feasible = (length msg_list = 0);
                      msg_concat = join '', '' msg_list
                  in Inr (is_init_feasible, msg_concat)))))
         | _ \<Rightarrow> Inl AttributeError))"


definition is_constrained :: "Problem \<Rightarrow> bool" where
  "is_constrained p = (global_eq_const p \<noteq> None)"




section \<open>Solvers\<close>

text \<open>
  The shared fields of a solver result. The class method \<^verbatim>\<open>abnormal\<close> is a protocol
  stub; the result it gives is a parameter \<open>abnormal\<close> of the solvers below.
\<close>

record result =
  traj :: "trajectory option"
  time_elapsed :: "real option"
  n_call :: int

subsection \<open>The racing solver\<close>

text \<open>
  \<^verbatim>\<open>ParallelSolver._solve\<close> seen from the orchestrating process: it starts
  \<open>n_process\<close> workers and then reads the result queue \<open>n_process\<close> times. The queue is
  given by the results it delivers, in order of arrival; reading an exhausted queue
  never returns. What the orchestrator does to the workers is kept as a list of
  events.
\<close>

datatype event = Start nat | Terminate nat | Join nat

datatype 'a outcome = Returns 'a | Raises error | Blocks

fun consume :: "result \<Rightarrow> nat \<Rightarrow> result list \<Rightarrow> result option \<Rightarrow> (bool \<times> result) outcome" where
  "consume abnormal 0 queue None = Raises UnboundLocalError"
| "consume abnormal 0 queue (Some r) = Returns (False, abnormal)"
| "consume abnormal (Suc k) [] bound = Blocks"
| "consume abnormal (Suc k) (r # queue) bound =
     (if traj r \<noteq> None then Returns (True, r) else consume abnormal k queue (Some r))"

definition ParallelSolver_solve ::
  "result \<Rightarrow> int \<Rightarrow> result list \<Rightarrow> event list \<times> result outcome" where
  "ParallelSolver_solve abnormal n_process queue =
     (let processes = [0..<nat n_process]; started = map Start processes in
      case consume abnormal (nat n_process) queue None of
        Returns (True, r) \<Rightarrow>
          (started @ map Terminate processes @ map Join processes, Returns r)
      | Returns (False, r) \<Rightarrow> (started, Returns r)
      | Raises e \<Rightarrow> (started, Raises e)
      | Blocks \<Rightarrow> (started, Blocks))"

subsection \<open>The nearest-neighbour solver\<close>

text \<open>
  \<^verbatim>\<open>np.argsort\<close> returns the indices of an array in ascending order of their values.
  The source calls it with its default sort, which does not fix the order of
  indices with equal values; so it is a parameter \<open>argsort\<close> of the functions below,
  and \<open>is_argsort\<close> says what every such function gives. \<open>stable_argsort\<close> is one of
  them: it keeps equal values in index order. Python's slices \<^verbatim>\<open>xs[:k]\<close> and
  \<^verbatim>\<open>xs[1:k]\<close> count a negative \<open>k\<close> from the end.
\<close>

definition is_argsort :: "vec \<Rightarrow> nat list \<Rightarrow> bool" where
  "is_argsort xs idxs \<longleftrightarrow>
     distinct idxs \<and> set idxs = {0..<length xs} \<and> sorted (map (\<lambda>i. xs ! i) idxs)"

definition stable_argsort :: "vec \<Rightarrow> nat list" where
  "stable_argsort xs = sort_key (\<lambda>i. xs ! i) [0..<length xs]"

definition slice_to :: "int \<Rightarrow> 'a list \<Rightarrow> 'a list" where
  "slice_to k xs = (if 0 \<le> k then take (nat k) xs else take (length xs - nat (- k)) xs)"

definition slice_from_1_to :: "int \<Rightarrow> 'a list \<Rightarrow> 'a list" where
  "slice_from_1_to k xs = drop 1 (slice_to k xs)"

text \<open>\<^verbatim>\<open>np.sum((vec_descs - desc) ** 2, axis=1)\<close>.\<close>

definition sqdists :: "mat \<Rightarrow> vec \<Rightarrow> error + vec" where
  "sqdists descs desc =
     (case mat_sub_vec descs desc of
        Inl e \<Rightarrow> Inl e
      | Inr diff \<Rightarrow> Inr (map (\<lambda>row. sum_list (map (\<lambda>x. x ^ 2) row)) diff))"

record NearestNeigborSolver =
  vec_descs :: mat
  trajectories :: "trajectory option list"
  knn :: int
  infeasibility_threshold :: real

text \<open>\<^verbatim>\<open>np.array(tmp)\<close> of the feature vectors: they must have one length.\<close>

definition np_array :: "vec list \<Rightarrow> error + mat" where
  "np_array rows =
     (if \<forall>r \<in> set rows. length r = length (hd rows) then Inr rows else Inl ValueError)"

text \<open>\<^verbatim>\<open>np.argmin\<close>: the first index of the least entry; an empty array raises.\<close>

definition argmin :: "nat list \<Rightarrow> error + nat" where
  "argmin es =
     (case es of
        [] \<Rightarrow> Inl ValueError
      | e # es' \<Rightarrow> Inr (length (takeWhile (\<lambda>x. x \<noteq> fold min es' e) (e # es'))))"

text \<open>
  The body of the inner loop of \<^verbatim>\<open>NearestNeigborSolver.init\<close> for one case: whether
  the prediction from the neighbours disagrees with the case's own trajectory.
\<close>

definition case_mismatch ::
  "(vec \<Rightarrow> nat list) \<Rightarrow> mat \<Rightarrow> trajectory option list \<Rightarrow> int \<Rightarrow> int
     \<Rightarrow> vec \<times> trajectory option \<Rightarrow> error + bool" where
  "case_mismatch argsort descs trajs k threshold entry =
     (case sqdists descs (fst entry) of
        Inl e \<Rightarrow> Inl e
      | Inr ds \<Rightarrow>
          (let k_nearests = slice_from_1_to (k + 1) (argsort ds);
               none_count_in_knn = length (filter (\<lambda>idx. trajs ! idx = None) k_nearests);
               seems_infeasible = (int none_count_in_knn \<ge> threshold);
               actually_infeasible = (snd entry = None)
           in Inr (seems_infeasible \<noteq> actually_infeasible)))"

definition threshold_error ::
  "(vec \<Rightarrow> nat list) \<Rightarrow> (vec \<times> trajectory option) list \<Rightarrow> mat
     \<Rightarrow> trajectory option list \<Rightarrow> int \<Rightarrow> int \<Rightarrow> error + nat" where
  "threshold_error argsort dataset descs trajs k threshold =
     (case mapM (case_mismatch argsort descs trajs k threshold) dataset of
        Inl e \<Rightarrow> Inl e
      | Inr ms \<Rightarrow> Inr (length (filter id ms)))"

text \<open>
  \<^verbatim>\<open>NearestNeigborSolver.init\<close>. Unpacking \<^verbatim>\<open>zip(*dataset)\<close> of an empty case base
  raises. Construction of the internal solver is the business of that solver's class
  and is left out.
\<close>

definition init ::
  "(vec \<Rightarrow> nat list) \<Rightarrow> (vec \<times> trajectory option) list \<Rightarrow> int \<Rightarrow> real option
     \<Rightarrow> error + NearestNeigborSolver" where
  "init argsort dataset k given_threshold =
     (if dataset = [] then Inl ValueError
      else
        (case np_array (map fst dataset) of
           Inl e \<Rightarrow> Inl e
         | Inr descs \<Rightarrow>
             (let trajs = map snd dataset in
              case given_threshold of
                Some t \<Rightarrow>
                  Inr \<lparr>vec_descs = descs, trajectories = trajs, knn = k,
                       infeasibility_threshold = t\<rparr>
              | None \<Rightarrow>
                  (let thresholds = [1..k - 1] in
                   case mapM (threshold_error argsort dataset descs trajs k) thresholds of
                     Inl e \<Rightarrow> Inl e
                   | Inr errors \<Rightarrow>
                       (case argmin errors of
                          Inl e \<Rightarrow> Inl e
                        | Inr i \<Rightarrow>
                            Inr \<lparr>vec_descs = descs, trajectories = trajs, knn = k,
                                 infeasibility_threshold = real_of_int (thresholds ! i)\<rparr>)))))"

text \<open>\<^verbatim>\<open>NearestNeigborSolver._knn_trajectories\<close>.\<close>

definition knn_trajectories ::
  "(vec \<Rightarrow> nat list) \<Rightarrow> NearestNeigborSolver \<Rightarrow> vec \<Rightarrow> error + trajectory option list" where
  "knn_trajectories argsort s query_desc =
     (case sqdists (vec_descs s) query_desc of
        Inl e \<Rightarrow> Inl e
      | Inr ds \<Rightarrow>
          mapM (\<lambda>i. if i < length (trajectories s) then Inr (trajectories s ! i)
                    else Inl IndexError)
            (slice_to (knn s) (argsort ds)))"

text \<open>
  \<^verbatim>\<open>NearestNeigborSolver._solve\<close>. The internal solver is a parameter; next to the
  result, the model returns the guides of the calls made to it, in order.
\<close>

fun solve_with_first_guide ::
  "(trajectory option \<Rightarrow> result) \<Rightarrow> result \<Rightarrow> trajectory option list
     \<Rightarrow> result \<times> trajectory option list" where
  "solve_with_first_guide internal_solve abnormal [] = (abnormal, [])"
| "solve_with_first_guide internal_solve abnormal (guiding_traj # rest) =
     (if guiding_traj \<noteq> None then (internal_solve guiding_traj, [guiding_traj])
      else solve_with_first_guide internal_solve abnormal rest)"

definition NearestNeigborSolver_solve ::
  "(vec \<Rightarrow> nat list) \<Rightarrow> (trajectory option \<Rightarrow> result) \<Rightarrow> result
     \<Rightarrow> NearestNeigborSolver \<Rightarrow> vec option \<Rightarrow> error + (result \<times> trajectory option list)" where
  "NearestNeigborSolver_solve argsort internal_solve abnormal s query_desc =
     (case query_desc of
        Some q \<Rightarrow>
          (case knn_trajectories argsort s q of
             Inl e \<Rightarrow> Inl e
           | Inr trajs \<Rightarrow>
               (let trajs_without_none = filter (\<lambda>t. t \<noteq> None) trajs;
                    count_none = int (length trajs) - int (length trajs_without_none);
                    seems_infeasible = (real_of_int count_none \<ge> infeasibility_threshold s)
                in if seems_infeasible then Inr (abnormal, [])
                   else Inr (solve_with_first_guide internal_solve abnormal trajs_without_none)))
      | None \<Rightarrow> Inr (internal_solve None, [None]))"

subsection \<open>Leave-one-out calibration as the specification words it\<close>

text \<open>
  For the comparison with \<open>init\<close>: the neighbours of case \<open>i\<close> are the \<open>k\<close> nearest
  among the other cases, a case is predicted infeasible when at least \<open>t\<close> of its
  neighbours have no trajectory, and the threshold chosen is the first one in
  ascending order with the least number of mismatches.
  Among other cases at the same distance the specification names no order; the
  definition takes them in index order.
\<close>

definition sqdist :: "vec \<Rightarrow> vec \<Rightarrow> real" where
  "sqdist u v = sum_list (map2 (\<lambda>a b. (a - b) ^ 2) u v)"

definition spec_neighbours :: "(vec \<times> trajectory option) list \<Rightarrow> nat \<Rightarrow> nat \<Rightarrow> nat list" where
  "spec_neighbours dataset k i =
     take k (sort_key (\<lambda>j. sqdist (fst (dataset ! j)) (fst (dataset ! i)))
               (filter (\<lambda>j. j \<noteq> i) [0..<length dataset]))"

definition spec_mismatches :: "(vec \<times> trajectory option) list \<Rightarrow> nat \<Rightarrow> nat \<Rightarrow> nat" where
  "spec_mismatches dataset k t =
     length (filter
       (\<lambda>i. (t \<le> length (filter (\<lambda>j. snd (dataset ! j) = None) (spec_neighbours dataset k i)))
             \<noteq> (snd (dataset ! i) = None))
       [0..<length dataset])"

definition spec_is_calibrated :: "(vec \<times> trajectory option) list \<Rightarrow> nat \<Rightarrow> nat \<Rightarrow> bool" where
  "spec_is_calibrated dataset k t =
     (t \<in> {1..<k}
      \<and> list_all (\<lambda>t'. spec_mismatches dataset k t \<le> spec_mismatches dataset k t') [1..<k]
      \<and> list_all (\<lambda>t'. spec_mismatches dataset k t < spec_mismatches dataset k t') [1..<t])"

section \<open>Box limits: residual layout\<close>

lemma BoxConst_init_flag: "BoxConst_init l u = Inr (BoxConst True l u)"
  by (simp add: BoxConst_init_def)

text \<open>The example of the specification: one configuration inside the unit box.\<close>

lemma BoxConst_evaluate_example:
  "evaluate (BoxConst True [- 1, - 1] [1, 1]) [[0, 0]] True
     = Inr ([[1, 1, 1, 1]], Jacobian [[[1, 0], [0, 1], [- 1, 0], [0, - 1]]])"
  by code_simp

text \<open>
  Claim C1: for every batch of \<open>n\<close> configurations, row \<open>i\<close> of the residual of
  \<^verbatim>\<open>BoxConst.evaluate\<close> is the lower margins of configuration \<open>i\<close> followed by its upper
  margins, and the Jacobian of each configuration is \<open>[I; -I]\<close>. The code does not
  do this for a batch of two: with bounds \<open>[0]\<close> and \<open>[10]\<close> and the configurations
  \<open>[1]\<close> and \<open>[2]\<close> the rows would be \<open>[1, 9]\<close> and \<open>[2, 8]\<close>, and \<^verbatim>\<open>_evaluate\<close> returns
  the two lower margins as the first row and the two upper margins as the second,
  next to the Jacobian \<open>[I; -I]\<close> of the rows the claim describes.
\<close>

theorem BoxConst_evaluate_batch_of_two:
  "evaluate (BoxConst True [0] [10]) [[1], [2]] True
     = Inr ([[1, 2], [9, 8]], Jacobian [[[1], [- 1]], [[1], [- 1]]])"
  by code_simp

section \<open>The placeholder Jacobian\<close>

text \<open>
  Claim C2: every constraint class returns the placeholder as the Jacobian when
  \<open>with_jacobian\<close> is false. \<^verbatim>\<open>PointCollFreeConst\<close> does not: for the signed distance
  that reads the first coordinate of each point, and the single configuration
  \<open>[0]\<close>, it returns the finite-difference Jacobian.
\<close>

theorem PointCollFreeConst_returns_jacobian:
  "evaluate (PointCollFreeConst True (map hd)) [[0]] False = Inr ([[0]], Jacobian [[[1]]])"
  by code_simp

section \<open>The racing solver\<close>

text \<open>
  Claim C9: \<^verbatim>\<open>ParallelSolver._solve\<close> returns the first consumed result that has a
  trajectory, and the abnormal result when all \<open>N\<close> consumed results lack one. With
  no worker (\<open>N = 0\<close>) all of the zero results lack a trajectory, and the code
  raises instead: the variable \<open>result\<close> was never bound.
\<close>

theorem ParallelSolver_solve_no_process:
  "ParallelSolver_solve abnormal 0 queue = ([], Raises UnboundLocalError)"
  by (simp add: ParallelSolver_solve_def)

section \<open>The reflection gate\<close>

lemma reflect_robot_flag_set [simp]: "reflect_robot_flag (set_reflect_robot_flag c)"
  by (cases c) simp_all

lemma type_name_set [simp]: "type_name (set_reflect_robot_flag c) = type_name c"
  by (cases c) simp_all

lemma reflect_sets_flag: "reflect_skrobot_model c rm = Inr c' \<Longrightarrow> reflect_robot_flag c'"
  by (auto split: sum.splits)

text \<open>
  Claim C8: on every constraint that has not been reflected since its construction,
  \<^verbatim>\<open>evaluate\<close> fails with a state error. A composite is an exception: its constructor
  sets the flag without a call of \<^verbatim>\<open>reflect_skrobot_model\<close>, so the composite below,
  fresh from its constructor, evaluates.
\<close>

theorem composite_evaluates_unreflected:
  "IneqCompositeConst_init [BoxConst True [0] [1]] = Inr (IneqCompositeConst True [BoxConst True [0] [1]])
   \<and> evaluate (IneqCompositeConst True [BoxConst True [0] [1]]) [[0]] False
       = Inr ([[0, 1]], dummy_jacobian)"
proof
  show "IneqCompositeConst_init [BoxConst True [0] [1]]
          = Inr (IneqCompositeConst True [BoxConst True [0] [1]])"
    by (simp add: IneqCompositeConst_init_def)
  show "evaluate (IneqCompositeConst True [BoxConst True [0] [1]]) [[0]] False
          = Inr ([[0, 1]], dummy_jacobian)"
    by code_simp
qed

text \<open>
  Claim C8 as amended: on every constraint whose \<open>reflect_robot_flag\<close> is unset,
  \<^verbatim>\<open>evaluate\<close> fails with the \<^verbatim>\<open>RuntimeError\<close> that names the class, and computes no
  residual; once \<^verbatim>\<open>reflect_skrobot_model\<close> has returned, the flag is set and
  \<^verbatim>\<open>evaluate\<close> is the evaluation of the class.
\<close>

theorem evaluate_gate:
  "(\<not> reflect_robot_flag c \<longrightarrow>
      evaluate c qs with_jacobian
        = Inl (RuntimeError (type_name c @ '': you need to call reflect_skrobot_model beforehand'')))
   \<and> (reflect_skrobot_model c robot_model = Inr c' \<longrightarrow>
        reflect_robot_flag c' \<and> evaluate c' qs with_jacobian = evaluate_body c' qs with_jacobian)"
  using reflect_sets_flag [of c robot_model c'] by (simp add: not_reflected_message_def)

theorem evaluate_gate_witness:
  "evaluate (BoxConst False [0] [1]) [[0]] False
     = Inl (RuntimeError ''BoxConst: you need to call reflect_skrobot_model beforehand'')
   \<and> reflect_skrobot_model (BoxConst False [0] [1]) None = Inr (BoxConst True [0] [1])
   \<and> evaluate (BoxConst True [0] [1]) [[0]] False = Inr ([[0, 1]], dummy_jacobian)"
proof -
  have r: "reflect_skrobot_model (BoxConst False [0] [1]) None = Inr (BoxConst True [0] [1])"
    by simp
  have b: "evaluate_body (BoxConst True [0] [1]) [[0]] False = Inr ([[0, 1]], dummy_jacobian)"
    by code_simp
  show ?thesis
    using evaluate_gate [of "BoxConst False [0] [1]" "[[0]]" False None "BoxConst True [0] [1]"] r b
    by simp
qed

section \<open>Composite constraints\<close>

lemma evaluate_members_list_all2:
  "evaluate_members cs qs wj = Inr rs \<longleftrightarrow> list_all2 (\<lambda>m r. evaluate m qs wj = Inr r) cs rs"
proof (induction cs arbitrary: rs)
  case Nil
  then show ?case by auto
next
  case (Cons c cs)
  show ?case
  proof (cases rs)
    case Nil
    then show ?thesis by (auto split: sum.splits simp del: evaluate.simps)
  next
    case (Cons r rs')
    then show ?thesis using Cons.IH [of rs']
      by (auto split: sum.splits simp del: evaluate.simps)
  qed
qed

lemma hstack_iff:
  "hstack ms = Inr F \<longleftrightarrow>
     ms \<noteq> [] \<and> (\<forall>m \<in> set ms. length m = length F)
     \<and> F = map (\<lambda>i. concat (map (\<lambda>m. m ! i) ms)) [0..<length F]"
  by (cases ms) (auto simp: hstack_def)

lemma the_tensors_iff: "the_tensors js = Some ts \<longleftrightarrow> js = map Jacobian ts"
proof (induction js arbitrary: ts)
  case Nil
  then show ?case by auto
next
  case (Cons j js)
  then show ?case by (cases j; cases ts) auto
qed

lemma all_equal_hd: "(\<forall>d \<in> set xs. d = hd xs) \<longleftrightarrow> (\<exists>d0. \<forall>d \<in> set xs. d = d0)"
  by (cases xs) auto

lemma set_row_lengths:
  "set (row_lengths ts) = {length row | row M t. row \<in> set M \<and> M \<in> set t \<and> t \<in> set ts}"
  by (auto simp: row_lengths_def)

lemma concatenate_axis1_iff:
  "concatenate_axis1 js = Inr T \<longleftrightarrow>
     (\<exists>ts. js = map Jacobian ts \<and> ts \<noteq> [] \<and> (\<forall>t \<in> set ts. length t = length T)
        \<and> (\<exists>d. \<forall>t \<in> set ts. \<forall>M \<in> set t. \<forall>row \<in> set M. length row = d)
        \<and> T = map (\<lambda>i. concat (map (\<lambda>t. t ! i) ts)) [0..<length T])"
proof (cases "the_tensors js")
  case None
  then have "\<And>ts. js \<noteq> map Jacobian ts"
    using the_tensors_iff [of js] by auto
  with None show ?thesis by (auto simp: concatenate_axis1_def)
next
  case (Some ts0)
  then have js: "js = map Jacobian ts0" by (simp add: the_tensors_iff)
  have inj: "\<And>ts. map Jacobian ts0 = map Jacobian ts \<longleftrightarrow> ts0 = ts"
    by (simp add: inj_map_eq_map inj_on_def)
  show ?thesis
  proof (cases ts0)
    case Nil
    with Some js show ?thesis by (auto simp: concatenate_axis1_def)
  next
    case (Cons t ts')
    have rows: "(\<forall>d \<in> set (row_lengths ts0). d = hd (row_lengths ts0))
                  \<longleftrightarrow> (\<exists>d. \<forall>t \<in> set ts0. \<forall>M \<in> set t. \<forall>row \<in> set M. length row = d)"
    proof -
      have "(\<forall>d \<in> set (row_lengths ts0). d = hd (row_lengths ts0))
              \<longleftrightarrow> (\<exists>d0. \<forall>d \<in> set (row_lengths ts0). d = d0)"
        by (rule all_equal_hd)
      also have "\<dots> \<longleftrightarrow> (\<exists>d. \<forall>t \<in> set ts0. \<forall>M \<in> set t. \<forall>row \<in> set M. length row = d)"
        unfolding set_row_lengths by blast
      finally show ?thesis .
    qed
    have "concatenate_axis1 js = Inr T \<longleftrightarrow>
            (\<forall>t' \<in> set ts0. length t' = length t)
            \<and> (\<forall>d \<in> set (row_lengths ts0). d = hd (row_lengths ts0))
            \<and> T = map (\<lambda>i. concat (map (\<lambda>t'. t' ! i) ts0)) [0..<length t]"
      using Some Cons by (auto simp: concatenate_axis1_def)
    also have "\<dots> \<longleftrightarrow>
            (\<forall>t' \<in> set ts0. length t' = length T)
            \<and> (\<exists>d. \<forall>t \<in> set ts0. \<forall>M \<in> set t. \<forall>row \<in> set M. length row = d)
            \<and> T = map (\<lambda>i. concat (map (\<lambda>t'. t' ! i) ts0)) [0..<length T]"
      unfolding rows using Cons by auto
    finally have E: "concatenate_axis1 js = Inr T \<longleftrightarrow>
            (\<forall>t' \<in> set ts0. length t' = length T)
            \<and> (\<exists>d. \<forall>t \<in> set ts0. \<forall>M \<in> set t. \<forall>row \<in> set M. length row = d)
            \<and> T = map (\<lambda>i. concat (map (\<lambda>t'. t' ! i) ts0)) [0..<length T]" .
    have ne: "ts0 \<noteq> []" using Cons by simp
    have ex: "\<And>R. (\<exists>ts. js = map Jacobian ts \<and> ts \<noteq> [] \<and> R ts) \<longleftrightarrow> R ts0"
      unfolding js inj using ne by blast
    show ?thesis
      unfolding E
      by (rule ex [of "\<lambda>ts. (\<forall>t \<in> set ts. length t = length T)
            \<and> (\<exists>d. \<forall>t \<in> set ts. \<forall>M \<in> set t. \<forall>row \<in> set M. length row = d)
            \<and> T = map (\<lambda>i. concat (map (\<lambda>t. t ! i) ts)) [0..<length T]", symmetric])
  qed
qed

lemma CompositeConst_combine_iff:
  "CompositeConst_combine rs wj = Inr (F, J) \<longleftrightarrow>
     hstack (map fst rs) = Inr F
     \<and> (if wj then \<exists>T. concatenate_axis1 (map snd rs) = Inr T \<and> J = Jacobian T
         else J = dummy_jacobian)"
  by (auto simp: CompositeConst_combine_def Let_def split: sum.splits)

lemma hstack_fst_iff:
  "hstack (map fst rs) = Inr F \<longleftrightarrow>
     rs \<noteq> [] \<and> (\<forall>r \<in> set rs. length (fst r) = length F)
     \<and> F = map (\<lambda>i. concat (map (\<lambda>r. fst r ! i) rs)) [0..<length F]"
  by (simp add: hstack_iff comp_def)

lemma evaluate_composite:
  assumes "c = IneqCompositeConst True cs \<or> c = EqCompositeConst True cs"
  shows "evaluate c qs wj = Inr (F, J) \<longleftrightarrow>
           (\<exists>rs. evaluate_members cs qs wj = Inr rs \<and> CompositeConst_combine rs wj = Inr (F, J))"
  using assms by (auto split: sum.splits)

text \<open>
  Claim C7: the residual of a composite is the concatenation, along the output axis,
  of the residuals of its members evaluated independently in member order, and with
  \<open>with_jacobian\<close> its Jacobian is the concatenation of the members' Jacobians along
  the same axis, batch and configuration axes aligned. Stated with the failures of
  the source: a composite returns \<open>(F, J)\<close> exactly when every member returns, there
  is at least one member, the members' residuals have as many rows as \<open>F\<close>, row \<open>i\<close>
  of \<open>F\<close> is the members' rows \<open>i\<close> one after the other, and, with \<open>with_jacobian\<close>,
  the members' Jacobians agree on the batch and on the configuration dimension and
  the Jacobian of configuration \<open>i\<close> is the members' Jacobians of configuration \<open>i\<close>
  one below the other; without it, \<open>J\<close> is the placeholder.
\<close>

theorem composite_evaluate_concatenates:
  assumes "c = IneqCompositeConst True cs \<or> c = EqCompositeConst True cs"
  shows "evaluate c qs with_jacobian = Inr (F, J) \<longleftrightarrow>
     (\<exists>rs. list_all2 (\<lambda>m r. evaluate m qs with_jacobian = Inr r) cs rs
        \<and> rs \<noteq> []
        \<and> (\<forall>r \<in> set rs. length (fst r) = length F)
        \<and> F = map (\<lambda>i. concat (map (\<lambda>r. fst r ! i) rs)) [0..<length F]
        \<and> (if with_jacobian
            then \<exists>ts T. map snd rs = map Jacobian ts \<and> J = Jacobian T
                   \<and> (\<forall>t \<in> set ts. length t = length T)
                   \<and> (\<exists>d. \<forall>t \<in> set ts. \<forall>M \<in> set t. \<forall>row \<in> set M. length row = d)
                   \<and> T = map (\<lambda>i. concat (map (\<lambda>t. t ! i) ts)) [0..<length T]
            else J = dummy_jacobian))"
proof (cases with_jacobian)
  case True
  have ne: "\<And>rs ts. rs \<noteq> [] \<Longrightarrow> map snd rs = map Jacobian ts \<Longrightarrow> ts \<noteq> []"
    by auto
  show ?thesis
    unfolding evaluate_composite [OF assms] evaluate_members_list_all2
      CompositeConst_combine_iff hstack_fst_iff concatenate_axis1_iff
    using True ne by (simp del: evaluate.simps) blast
next
  case False
  show ?thesis
    unfolding evaluate_composite [OF assms] evaluate_members_list_all2
      CompositeConst_combine_iff hstack_fst_iff
    using False by (simp del: evaluate.simps)
qed

theorem composite_evaluate_concatenates_witness:
  "evaluate (IneqCompositeConst True [BoxConst True [0] [5], BoxConst True [1] [6]]) [[2], [4]] True
     = Inr ([[2, 4, 1, 3], [3, 1, 4, 2]],
            Jacobian [[[1], [- 1], [1], [- 1]], [[1], [- 1], [1], [- 1]]])"
proof -
  have m1: "evaluate (BoxConst True [0] [5]) [[2], [4]] True
              = Inr ([[2, 4], [3, 1]], Jacobian [[[1], [- 1]], [[1], [- 1]]])"
    by code_simp
  have m2: "evaluate (BoxConst True [1] [6]) [[2], [4]] True
              = Inr ([[1, 3], [4, 2]], Jacobian [[[1], [- 1]], [[1], [- 1]]])"
    by code_simp
  have two: "[0..<2] = [0, 1]"
    by (simp add: upt_conv_Cons)
  show ?thesis
    apply (rule composite_evaluate_concatenates [OF disjI1 [OF refl], THEN iffD2])
    apply (rule exI [of _ "[([[2, 4], [3, 1]], Jacobian [[[1], [- 1]], [[1], [- 1]]]),
                            ([[1, 3], [4, 2]], Jacobian [[[1], [- 1]], [[1], [- 1]]])]"])
    apply (simp add: m1 m2 two del: evaluate.simps)
    apply (rule exI [of _ "[[[[1], [- 1]], [[1], [- 1]]], [[[1], [- 1]], [[1], [- 1]]]]"])
    apply (simp add: two)
    done
qed

section \<open>Trajectory feasibility\<close>






section \<open>Queries of the nearest-neighbour solver\<close>

lemma mapM_total:
  "(\<And>x. x \<in> set xs \<Longrightarrow> f x = Inr (g x)) \<Longrightarrow> mapM f xs = Inr (map g xs)"
  by (induction xs) auto

text \<open>What every \<open>argsort\<close> gives, and that \<open>stable_argsort\<close> is one.\<close>

lemma is_argsort_stable: "is_argsort ds (stable_argsort ds)"
  by (simp add: is_argsort_def stable_argsort_def)

lemma is_argsort_length: "is_argsort ds idxs \<Longrightarrow> length idxs = length ds"
  using distinct_card [of idxs] by (simp add: is_argsort_def)

lemma is_argsort_values:
  assumes "is_argsort ds idxs"
  shows "map (\<lambda>i. ds ! i) idxs = sort ds"
proof -
  have "mset idxs = mset [0..<length ds]"
    using assms set_eq_iff_mset_eq_distinct [of idxs "[0..<length ds]"]
    by (simp add: is_argsort_def del: mset_upt)
  then have "mset (map (\<lambda>i. ds ! i) idxs) = mset (map (\<lambda>i. ds ! i) [0..<length ds])"
    by (simp only: mset_map)
  then have "mset (map (\<lambda>i. ds ! i) idxs) = mset ds"
    by (simp only: map_nth)
  moreover have "sorted (map (\<lambda>i. ds ! i) idxs)"
    using assms by (simp add: is_argsort_def)
  ultimately show ?thesis
    by (rule properties_for_sort [symmetric])
qed

lemma is_argsort_nth:
  assumes "is_argsort ds idxs" and "p < length ds"
  shows "idxs ! p < length ds" and "ds ! (idxs ! p) = sort ds ! p"
proof -
  have len: "length idxs = length ds" using assms(1) by (rule is_argsort_length)
  then have "idxs ! p \<in> set idxs" using assms(2) by simp
  then show "idxs ! p < length ds" using assms(1) by (simp add: is_argsort_def)
  have "map (\<lambda>i. ds ! i) idxs ! p = sort ds ! p"
    using is_argsort_values [OF assms(1)] by simp
  then show "ds ! (idxs ! p) = sort ds ! p"
    using len assms(2) by simp
qed

lemma set_slice_to: "set (slice_to k xs) \<subseteq> set xs"
  by (auto simp: slice_to_def dest: in_set_takeD)

lemma slice_to_take: "\<exists>n. slice_to k xs = take n xs"
  by (auto simp: slice_to_def)

lemma nearest_prefix:
  assumes "is_argsort ds idxs" and "i \<in> set (take n idxs)" and "j < length ds"
    and "j \<notin> set (take n idxs)"
  shows "ds ! i \<le> ds ! j"
proof -
  have "j \<in> set idxs" using assms(1,3) by (simp add: is_argsort_def)
  then have "j \<in> set (drop n idxs)"
    using assms(4) set_append [of "take n idxs" "drop n idxs"] by auto
  moreover have "sorted (map (\<lambda>i. ds ! i) (take n idxs) @ map (\<lambda>i. ds ! i) (drop n idxs))"
    using assms(1) by (simp add: is_argsort_def flip: map_append)
  ultimately show ?thesis
    using assms(2) by (auto simp: sorted_append)
qed

lemma knn_trajectories_nearest:
  assumes "sqdists (vec_descs s) q = Inr ds" and "length (trajectories s) = length ds"
    and "is_argsort ds (argsort ds)"
  shows "knn_trajectories argsort s q
           = Inr (map (\<lambda>i. trajectories s ! i) (slice_to (knn s) (argsort ds)))"
proof -
  have "\<And>i. i \<in> set (slice_to (knn s) (argsort ds)) \<Longrightarrow> i < length (trajectories s)"
    using set_slice_to [of "knn s" "argsort ds"] assms(2,3) by (auto simp: is_argsort_def)
  then have "mapM (\<lambda>i. if i < length (trajectories s) then Inr (trajectories s ! i)
                        else Inl IndexError) (slice_to (knn s) (argsort ds))
               = Inr (map (\<lambda>i. trajectories s ! i) (slice_to (knn s) (argsort ds)))"
    by (intro mapM_total) simp
  then show ?thesis using assms(1) by (simp add: knn_trajectories_def)
qed

lemma solve_with_first_guide_find:
  "solve_with_first_guide f a ts
     = (case find (\<lambda>t. t \<noteq> None) ts of None \<Rightarrow> (a, []) | Some g \<Rightarrow> (f g, [g]))"
  by (induction ts) auto

lemma find_filter_same: "find P (filter P xs) = find P xs"
  by (induction xs) auto

lemma count_none:
  "int (length ts) - int (length (filter (\<lambda>t. t \<noteq> None) ts))
     = int (length (filter (\<lambda>t. t = None) ts))"
  using sum_length_filter_compl [of "\<lambda>t. t = None" ts] by simp

text \<open>
  Claim C6: with a query, \<^verbatim>\<open>_solve\<close> retrieves the \<open>k\<close> nearest entries; when at least
  \<open>infeasibility_threshold\<close> of them have no trajectory it returns the abnormal result
  without a call of the internal solver, and otherwise it calls the internal solver
  exactly once, with the first retrieved trajectory. The last part fails when the
  count stays below the threshold and yet no retrieved entry has a trajectory: one
  case without trajectory, \<open>knn = 1\<close> and the threshold 2 give the abnormal result
  and no call. (A case base of one case has one index order.)
\<close>

theorem solve_without_guide_counterexample:
  "NearestNeigborSolver_solve stable_argsort
      (\<lambda>g. \<lparr>traj = g, time_elapsed = None, n_call = 1\<rparr>)
      \<lparr>traj = None, time_elapsed = None, n_call = 0\<rparr>
      \<lparr>vec_descs = [[0]], trajectories = [None], knn = 1, infeasibility_threshold = 2\<rparr> (Some [0])
     = Inr (\<lparr>traj = None, time_elapsed = None, n_call = 0\<rparr>, [])
   \<and> knn_trajectories stable_argsort \<lparr>vec_descs = [[0]], trajectories = [None], knn = 1,
         infeasibility_threshold = 2\<rparr> [0] = Inr [None]
   \<and> \<not> (2 \<le> real (length (filter (\<lambda>t. t = None) [None :: trajectory option])))"
  by code_simp

text \<open>
  Claim C6 as amended, for every order \<^verbatim>\<open>np.argsort\<close> may give to equal distances:
  the entries retrieved are those of the first \<open>knn\<close> indices of the sorted order;
  these indices are different, sorted by distance, and no index left out is nearer
  than one retrieved. When at least \<open>infeasibility_threshold\<close> of the retrieved
  entries have no trajectory the result is abnormal and the internal solver is not
  called; otherwise, when some retrieved entry has a trajectory, the internal solver
  is called once, with the first such trajectory, and its result is returned; and
  when none has, the result is abnormal and the internal solver is not called.
\<close>

theorem NearestNeigborSolver_solve_query:
  assumes "sqdists (vec_descs s) q = Inr ds" and "length (trajectories s) = length ds"
    and "is_argsort ds (argsort ds)"
    and "nearest = slice_to (knn s) (argsort ds)"
    and "retrieved = map (\<lambda>i. trajectories s ! i) nearest"
  shows "NearestNeigborSolver_solve argsort internal_solve abnormal s (Some q)
           = Inr (if infeasibility_threshold s \<le> real (length (filter (\<lambda>t. t = None) retrieved))
                  then (abnormal, [])
                  else (case find (\<lambda>t. t \<noteq> None) retrieved of
                          None \<Rightarrow> (abnormal, [])
                        | Some g \<Rightarrow> (internal_solve g, [g])))
         \<and> distinct nearest
         \<and> (\<forall>i \<in> set nearest. i < length ds)
         \<and> sorted (map (\<lambda>i. ds ! i) nearest)
         \<and> (\<forall>i \<in> set nearest. \<forall>j < length ds. j \<notin> set nearest \<longrightarrow> ds ! i \<le> ds ! j)
         \<and> (0 \<le> knn s \<longrightarrow> length nearest = min (nat (knn s)) (length ds))"
proof -
  have k: "knn_trajectories argsort s q = Inr retrieved"
    using knn_trajectories_nearest [where argsort = argsort, OF assms(1,2,3)] assms(4,5)
    by simp
  have c: "real_of_int (int (length retrieved) - int (length (filter (\<lambda>t. t \<noteq> None) retrieved)))
             = real (length (filter (\<lambda>t. t = None) retrieved))"
    by (simp only: count_none)
  have run: "NearestNeigborSolver_solve argsort internal_solve abnormal s (Some q)
           = Inr (if infeasibility_threshold s \<le> real (length (filter (\<lambda>t. t = None) retrieved))
                  then (abnormal, [])
                  else (case find (\<lambda>t. t \<noteq> None) retrieved of
                          None \<Rightarrow> (abnormal, [])
                        | Some g \<Rightarrow> (internal_solve g, [g])))"
    unfolding NearestNeigborSolver_solve_def Let_def
    by (simp only: option.case sum.case k c solve_with_first_guide_find find_filter_same
          if_distrib [of Inr])
  obtain n where n: "nearest = take n (argsort ds)"
    using slice_to_take [of "knn s" "argsort ds"] assms(4) by auto
  have d: "distinct nearest"
    using assms(3) by (simp add: n is_argsort_def)
  have r: "\<forall>i \<in> set nearest. i < length ds"
    using assms(3) by (auto simp: n is_argsort_def dest: in_set_takeD)
  have o: "sorted (map (\<lambda>i. ds ! i) nearest)"
    using assms(3) sorted_wrt_take [of "(\<le>)" "map (\<lambda>i. ds ! i) (argsort ds)" n]
    by (simp add: n is_argsort_def take_map)
  have f: "\<forall>i \<in> set nearest. \<forall>j < length ds. j \<notin> set nearest \<longrightarrow> ds ! i \<le> ds ! j"
    unfolding n using nearest_prefix [OF assms(3)] by blast
  have l: "0 \<le> knn s \<longrightarrow> length nearest = min (nat (knn s)) (length ds)"
    using is_argsort_length [OF assms(3)] by (simp add: assms(4) slice_to_def min.commute)
  show ?thesis using run d r o f l by blast
qed

theorem NearestNeigborSolver_solve_query_witness:
  "NearestNeigborSolver_solve stable_argsort
      (\<lambda>g. \<lparr>traj = g, time_elapsed = None, n_call = 1\<rparr>)
      \<lparr>traj = None, time_elapsed = None, n_call = 0\<rparr>
      \<lparr>vec_descs = [[3], [0], [1]], trajectories = [Some [[3]], None, Some [[1]]], knn = 2,
        infeasibility_threshold = 2\<rparr> (Some [0])
    = Inr (\<lparr>traj = Some [[1]], time_elapsed = None, n_call = 1\<rparr>, [Some [[1]]])
   \<and> slice_to 2 (stable_argsort [9, 0, 1]) = [1, 2]"
proof -
  have d: "sqdists (vec_descs \<lparr>vec_descs = [[3], [0], [1]],
              trajectories = [Some [[3]], None, Some [[1]]], knn = 2,
              infeasibility_threshold = 2\<rparr>) [0] = Inr [9, 0, 1]"
    by code_simp
  have a: "stable_argsort [9, 0, 1] = [1, 2, 0]"
    by code_simp
  show ?thesis
    using NearestNeigborSolver_solve_query [where argsort = stable_argsort
        and internal_solve = "\<lambda>g. \<lparr>traj = g, time_elapsed = None, n_call = 1\<rparr>"
        and abnormal = "\<lparr>traj = None, time_elapsed = None, n_call = 0\<rparr>",
        OF d _ is_argsort_stable refl refl]
    by (simp add: a slice_to_def)
qed

section \<open>Calibration of the nearest-neighbour solver\<close>

text \<open>
  Claim C10: with the default \<open>knn = 1\<close> and no threshold given, \<^verbatim>\<open>init\<close> fails: there
  is no candidate threshold, and the least entry of an empty list of error counts
  is asked for.
\<close>

theorem init_default_knn_fails: "init argsort dataset 1 None = Inl ValueError"
  by (auto simp: init_def argmin_def np_array_def split: sum.splits if_splits)

lemma less_6: "j < 6 \<longleftrightarrow> j = 0 \<or> j = 1 \<or> j = 2 \<or> j = 3 \<or> j = 4 \<or> j = (5::nat)"
  by auto

lemma argsort_position:
  assumes "is_argsort ds idxs" and "length ds = 6" and "p < 6"
  shows "\<exists>j \<in> {0, 1, 2, 3, 4, 5}. idxs ! p = j \<and> ds ! j = sort ds ! p"
proof -
  have "idxs ! p < 6" and "ds ! (idxs ! p) = sort ds ! p"
    using is_argsort_nth [OF assms(1), of p] assms(2,3) by simp_all
  then show ?thesis
    using less_6 [of "idxs ! p"] by auto
qed

lemma window_1_to_4:
  assumes "length xs = 6"
  shows "slice_from_1_to 4 xs = [xs ! 1, xs ! 2, xs ! 3]"
proof -
  obtain a b c d e f where "xs = [a, b, c, d, e, f]"
    using assms by (auto simp: eval_nat_numeral length_Suc_conv)
  then show ?thesis
    by (simp add: slice_from_1_to_def slice_to_def eval_nat_numeral)
qed

lemma case_mismatch_three_of_six:
  assumes "sqdists descs (fst entry) = Inr ds" and "is_argsort ds (argsort ds)"
    and "length ds = 6"
  shows "case_mismatch argsort descs trajs 3 t entry
           = Inr ((t \<le> int (length (filter (\<lambda>idx. trajs ! idx = None)
                                      [argsort ds ! 1, argsort ds ! 2, argsort ds ! 3])))
                  \<noteq> (snd entry = None))"
proof -
  have "length (argsort ds) = 6"
    using is_argsort_length [OF assms(2)] assms(3) by simp
  then have "slice_from_1_to (3 + 1) (argsort ds) = [argsort ds ! 1, argsort ds ! 2, argsort ds ! 3]"
    using window_1_to_4 by simp
  then show ?thesis
    using assms(1) by (simp add: case_mismatch_def Let_def)
qed

text \<open>
  Claim C5: the calibrated threshold minimises the leave-one-out mismatch count,
  each case being compared with its \<open>k\<close> nearest neighbours other than itself. The
  code leaves out the first index of the sorted distances, which is the case
  itself only when no other case has the same feature vector. In the case base
  below the first two cases share the feature vector \<open>[0]\<close>; for \<open>k = 3\<close> the
  leave-one-out counts are 2 mismatches for threshold 1 and 1 mismatch for
  threshold 2, and \<open>init\<close> chooses threshold 1, whatever order \<^verbatim>\<open>np.argsort\<close> gives
  to equal distances.
\<close>

theorem init_duplicate_descriptors:
  assumes ok: "\<And>ds. is_argsort ds (argsort ds)"
  shows "init argsort [([0], None), ([0], Some [[0]]), ([10], Some [[0]]), ([11], Some [[0]]),
         ([13], Some [[0]]), ([17], Some [[0]])] 3 None
     = Inr \<lparr>vec_descs = [[0], [0], [10], [11], [13], [17]],
            trajectories = [None, Some [[0]], Some [[0]], Some [[0]], Some [[0]], Some [[0]]],
            knn = 3, infeasibility_threshold = 1\<rparr>
   \<and> spec_mismatches [([0], None), ([0], Some [[0]]), ([10], Some [[0]]), ([11], Some [[0]]),
         ([13], Some [[0]]), ([17], Some [[0]])] 3 1 = 2
   \<and> spec_mismatches [([0], None), ([0], Some [[0]]), ([10], Some [[0]]), ([11], Some [[0]]),
         ([13], Some [[0]]), ([17], Some [[0]])] 3 2 = 1"
proof -
  let ?descs = "[[0], [0], [10], [11], [13], [17 :: real]]"
  let ?trajs = "[None, Some [[0]], Some [[0]], Some [[0]], Some [[0]], Some [[0 :: real]]]"
  let ?twin = "[0, 0, 100, 121, 169, 289 :: real]"
  let ?d2 = "[100, 100, 0, 1, 9, 49 :: real]"
  let ?d3 = "[121, 121, 1, 0, 4, 36 :: real]"
  let ?d4 = "[169, 169, 9, 4, 0, 16 :: real]"
  let ?d5 = "[289, 289, 49, 36, 16, 0 :: real]"
  have sq0: "sqdists ?descs [0] = Inr ?twin" by code_simp
  have sq2: "sqdists ?descs [10] = Inr ?d2" by code_simp
  have sq3: "sqdists ?descs [11] = Inr ?d3" by code_simp
  have sq4: "sqdists ?descs [13] = Inr ?d4" by code_simp
  have sq5: "sqdists ?descs [17] = Inr ?d5" by code_simp
  have st: "sort ?twin = ?twin" "sort ?d2 = [0, 1, 9, 49, 100, 100]"
    "sort ?d3 = [0, 1, 4, 36, 121, 121]" "sort ?d4 = [0, 4, 9, 16, 169, 169]"
    "sort ?d5 = [0, 16, 36, 49, 289, 289]"
    by code_simp+
  have t1: "argsort ?twin ! 1 = 0 \<or> argsort ?twin ! 1 = 1"
    using argsort_position [OF ok [of ?twin], of 1] by (auto simp: st)
  have t2: "argsort ?twin ! 2 = 2"
    using argsort_position [OF ok [of ?twin], of 2] by (auto simp: st)
  have t3: "argsort ?twin ! 3 = 3"
    using argsort_position [OF ok [of ?twin], of 3] by (auto simp: st)
  have pos: "argsort ds ! p \<in> {2, 3, 4, 5}"
    if "ds = ?d2 \<or> ds = ?d3 \<or> ds = ?d4 \<or> ds = ?d5" and "p = 1 \<or> p = 2 \<or> p = 3" for ds p
    using that argsort_position [OF ok [of ds], of p] by (auto simp: st)
  have far: "filter (\<lambda>idx. ?trajs ! idx = None) [argsort ds ! 1, argsort ds ! 2, argsort ds ! 3] = []"
    if "ds = ?d2 \<or> ds = ?d3 \<or> ds = ?d4 \<or> ds = ?d5" for ds
    using pos [OF that, of 1] pos [OF that, of 2] pos [OF that, of 3] by auto
  have m0: "case_mismatch argsort ?descs ?trajs 3 t ([0], None)
              = Inr ((t \<le> (if argsort ?twin ! 1 = 0 then 1 else 0)) \<noteq> True)" for t
    using case_mismatch_three_of_six [where argsort = argsort and entry = "([0], None)"
        and descs = ?descs and ds = ?twin and trajs = ?trajs and t = t, OF _ ok] sq0 t1
    by (auto simp: t2 t3)
  have m1: "case_mismatch argsort ?descs ?trajs 3 t ([0], Some [[0]])
              = Inr ((t \<le> (if argsort ?twin ! 1 = 0 then 1 else 0)) \<noteq> False)" for t
    using case_mismatch_three_of_six [where argsort = argsort and entry = "([0], Some [[0]])"
        and descs = ?descs and ds = ?twin and trajs = ?trajs and t = t, OF _ ok] sq0 t1
    by (auto simp: t2 t3)
  have m2: "case_mismatch argsort ?descs ?trajs 3 t ([10], Some [[0]]) = Inr (t \<le> 0)" for t
  proof -
    have run: "case_mismatch argsort ?descs ?trajs 3 t ([10], Some [[0]])
            = Inr ((t \<le> int (length (filter (\<lambda>idx. ?trajs ! idx = None)
                      [argsort ?d2 ! 1, argsort ?d2 ! 2, argsort ?d2 ! 3])))
                   \<noteq> (snd ([10 :: real], Some [[0 :: real]]) = None))"
      by (rule case_mismatch_three_of_six [OF _ ok]) (simp_all add: sq2)
    show ?thesis
      by (simp only: run far [of ?d2, OF disjI1 [OF refl]]) simp
  qed
  have m3: "case_mismatch argsort ?descs ?trajs 3 t ([11], Some [[0]]) = Inr (t \<le> 0)" for t
  proof -
    have run: "case_mismatch argsort ?descs ?trajs 3 t ([11], Some [[0]])
            = Inr ((t \<le> int (length (filter (\<lambda>idx. ?trajs ! idx = None)
                      [argsort ?d3 ! 1, argsort ?d3 ! 2, argsort ?d3 ! 3])))
                   \<noteq> (snd ([11 :: real], Some [[0 :: real]]) = None))"
      by (rule case_mismatch_three_of_six [OF _ ok]) (simp_all add: sq3)
    show ?thesis
      by (simp only: run far [of ?d3, OF disjI2 [OF disjI1 [OF refl]]]) simp
  qed
  have m4: "case_mismatch argsort ?descs ?trajs 3 t ([13], Some [[0]]) = Inr (t \<le> 0)" for t
  proof -
    have run: "case_mismatch argsort ?descs ?trajs 3 t ([13], Some [[0]])
            = Inr ((t \<le> int (length (filter (\<lambda>idx. ?trajs ! idx = None)
                      [argsort ?d4 ! 1, argsort ?d4 ! 2, argsort ?d4 ! 3])))
                   \<noteq> (snd ([13 :: real], Some [[0 :: real]]) = None))"
      by (rule case_mismatch_three_of_six [OF _ ok]) (simp_all add: sq4)
    show ?thesis
      by (simp only: run far [of ?d4, OF disjI2 [OF disjI2 [OF disjI1 [OF refl]]]]) simp
  qed
  have m5: "case_mismatch argsort ?descs ?trajs 3 t ([17], Some [[0]]) = Inr (t \<le> 0)" for t
  proof -
    have run: "case_mismatch argsort ?descs ?trajs 3 t ([17], Some [[0]])
            = Inr ((t \<le> int (length (filter (\<lambda>idx. ?trajs ! idx = None)
                      [argsort ?d5 ! 1, argsort ?d5 ! 2, argsort ?d5 ! 3])))
                   \<noteq> (snd ([17 :: real], Some [[0 :: real]]) = None))"
      by (rule case_mismatch_three_of_six [OF _ ok]) (simp_all add: sq5)
    show ?thesis
      by (simp only: run far [of ?d5, OF disjI2 [OF disjI2 [OF disjI2 [OF refl]]]]) simp
  qed
  have e1: "threshold_error argsort [([0], None), ([0], Some [[0]]), ([10], Some [[0]]), ([11], Some [[0]]),
         ([13], Some [[0]]), ([17], Some [[0]])] ?descs ?trajs 3 1 = Inr 1"
    by (simp add: threshold_error_def m0 m1 m2 m3 m4 m5)
  have e2: "threshold_error argsort [([0], None), ([0], Some [[0]]), ([10], Some [[0]]), ([11], Some [[0]]),
         ([13], Some [[0]]), ([17], Some [[0]])] ?descs ?trajs 3 2 = Inr 1"
    by (simp add: threshold_error_def m0 m1 m2 m3 m4 m5)
  have th: "[1..(2::int)] = [1, 2]"
    by code_simp
  have am: "argmin [Suc 0, Suc 0] = Inr 0"
    by (simp add: argmin_def)
  have run: "init argsort [([0], None), ([0], Some [[0]]), ([10], Some [[0]]), ([11], Some [[0]]),
         ([13], Some [[0]]), ([17], Some [[0]])] 3 None
     = Inr \<lparr>vec_descs = ?descs, trajectories = ?trajs, knn = 3, infeasibility_threshold = 1\<rparr>"
    by (simp add: init_def np_array_def Let_def th e1 e2 am)
  have spec: "spec_mismatches [([0], None), ([0], Some [[0]]), ([10], Some [[0]]), ([11], Some [[0]]),
         ([13], Some [[0]]), ([17], Some [[0]])] 3 1 = 2 \<and> spec_mismatches [([0], None), ([0], Some [[0]]), ([10], Some [[0]]), ([11], Some [[0]]),
         ([13], Some [[0]]), ([17], Some [[0]])] 3 2 = 1"
    by code_simp
  show ?thesis using run spec by simp
qed

theorem init_duplicate_descriptors_witness:
  "init stable_argsort [([0], None), ([0], Some [[0]]), ([10], Some [[0]]), ([11], Some [[0]]),
         ([13], Some [[0]]), ([17], Some [[0]])] 3 None
     = Inr \<lparr>vec_descs = [[0], [0], [10], [11], [13], [17]],
            trajectories = [None, Some [[0]], Some [[0]], Some [[0]], Some [[0]], Some [[0]]],
            knn = 3, infeasibility_threshold = 1\<rparr>
   \<and> spec_mismatches [([0], None), ([0], Some [[0]]), ([10], Some [[0]]), ([11], Some [[0]]),
         ([13], Some [[0]]), ([17], Some [[0]])] 3 1 = 2
   \<and> spec_mismatches [([0], None), ([0], Some [[0]]), ([10], Some [[0]]), ([11], Some [[0]]),
         ([13], Some [[0]]), ([17], Some [[0]])] 3 2 = 1"
  using init_duplicate_descriptors [where argsort = stable_argsort, OF is_argsort_stable] .

section \<open>Start feasibility\<close>

lemma join_Nil [simp]: "join sep [] = []"
  by (simp add: join_def)

lemma join_nonempty: "xs \<noteq> [] \<Longrightarrow> hd xs \<noteq> [] \<Longrightarrow> join sep xs \<noteq> []"
  by (cases xs) (auto simp: join_def)

lemma broadcast2_same_length:
  "length xs = length ys \<Longrightarrow> broadcast2 f xs ys = Inr (map2 f xs ys)"
  by (simp add: broadcast2_def)

lemma list_all_map2:
  "length xs = length ys \<Longrightarrow>
     list_all id (map2 f xs ys) \<longleftrightarrow> (\<forall>i < length xs. f (xs ! i) (ys ! i))"
  by (auto simp: list_all_iff set_zip in_set_conv_nth)

lemma ineq_messages_fails: "ineq_messages fmt g q = Inl AttributeError"
  by (simp add: ineq_messages_def is_valid_def)

text \<open>
  Claim C4: with \<open>skip_init_feasibility_check\<close> unset, \<^verbatim>\<open>check_init_feasibility\<close>
  returns true and an empty diagnostic exactly when the start lies strictly inside
  the box bounds and is accepted by the global inequality constraint when there is
  one, and false with a diagnostic otherwise. With a global inequality constraint
  the code returns nothing: the call of \<^verbatim>\<open>is_valid\<close> raises. Below, the start \<open>[1]\<close>
  lies strictly inside the box \<open>[0]\<close>, \<open>[10]\<close>, which is also the inequality
  constraint.
\<close>

theorem check_init_feasibility_with_ineq_const:
  "check_init_feasibility type_name
      \<lparr>start = [1], box_const = BoxConst True [0] [10], goal_const = ConfigPointConst True [1],
        global_ineq_const = Some (BoxConst True [0] [10]), global_eq_const = None,
        eqconst_admissible_mse = 1 / 1000000, motion_step_box_field = Inl (1 / 10),
        skip_init_feasibility_check = False\<rparr>
     = Inl AttributeError"
  by (simp add: check_init_feasibility_def broadcast2_def ineq_messages_fails)

text \<open>
  The same for every problem with a global inequality constraint; and without one,
  the result is what the claim says of the box.
\<close>

lemma check_init_feasibility_ineq_raises:
  assumes "\<not> skip_init_feasibility_check p" and "box_const p = BoxConst b l u"
    and "length l = length (start p)" and "length u = length (start p)"
    and "global_ineq_const p = Some g"
  shows "check_init_feasibility fmt p = Inl AttributeError"
  using assms
  by (simp add: check_init_feasibility_def broadcast2_same_length ineq_messages_fails)

lemma check_init_feasibility_box_only:
  assumes "\<not> skip_init_feasibility_check p" and "box_const p = BoxConst b l u"
    and "length l = length (start p)" and "length u = length (start p)"
    and "global_ineq_const p = None"
  shows "check_init_feasibility fmt p
           = Inr (\<forall>i < length (start p). l ! i < start p ! i \<and> start p ! i < u ! i,
                  join '', ''
                    ((if \<forall>i < length (start p). start p ! i < u ! i then []
                      else [''q_start doesn't satisfy BoxConst upper''])
                     @ (if \<forall>i < length (start p). l ! i < start p ! i then []
                        else [''q_start doesn't satisfy BoxConst lower''])))"
  using assms
  by (auto simp: check_init_feasibility_def broadcast2_same_length box_messages_def
        list_all_map2 doesnt_satisfy_def Let_def)

section \<open>Further properties\<close>

subsection \<open>The racing solver with at least one worker\<close>

text \<open>
  With \<open>n_process\<close> at least one and as many results delivered, the first result with
  a trajectory among the first \<open>n_process\<close> wins, after which every worker is
  terminated and then joined; when none has a trajectory the abnormal result is
  returned, and no worker is terminated or joined.
\<close>

lemma consume_find:
  assumes "n \<le> length queue" and "0 < n \<or> bound \<noteq> None"
  shows "consume abnormal n queue bound
           = (case find (\<lambda>r. traj r \<noteq> None) (take n queue) of
                Some r \<Rightarrow> Returns (True, r)
              | None \<Rightarrow> Returns (False, abnormal))"
  using assms
proof (induction abnormal n queue bound rule: consume.induct)
  case (4 abnormal k r queue bound)
  then show ?case by (cases k) auto
qed auto

lemma ParallelSolver_solve_first_result:
  assumes "0 < n_process" and "nat n_process \<le> length queue"
  shows "ParallelSolver_solve abnormal n_process queue
           = (case find (\<lambda>r. traj r \<noteq> None) (take (nat n_process) queue) of
                Some r \<Rightarrow>
                  (map Start [0..<nat n_process] @ map Terminate [0..<nat n_process]
                     @ map Join [0..<nat n_process], Returns r)
              | None \<Rightarrow> (map Start [0..<nat n_process], Returns abnormal))"
proof -
  have "consume abnormal (nat n_process) queue None
          = (case find (\<lambda>r. traj r \<noteq> None) (take (nat n_process) queue) of
               Some r \<Rightarrow> Returns (True, r)
             | None \<Rightarrow> Returns (False, abnormal))"
    using assms by (intro consume_find) auto
  then show ?thesis
    by (simp add: ParallelSolver_solve_def Let_def split: option.splits)
qed

subsection \<open>Box limits for a single configuration\<close>

text \<open>
  For a batch of one configuration the residual is the lower margins followed by
  the upper margins, and the Jacobian is \<open>[I; -I]\<close>.
\<close>

lemma mat_sub_vec_single:
  "length q = length v \<Longrightarrow> mat_sub_vec [q] v = Inr [map2 (\<lambda>a b. a - b) q v]"
  by (simp add: mat_sub_vec_def broadcast2_def)

lemma vec_sub_mat_single:
  "length q = length v \<Longrightarrow> vec_sub_mat v [q] = Inr [map2 (\<lambda>a b. a - b) v q]"
  by (simp add: vec_sub_mat_def broadcast2_def)

lemma BoxConst_evaluate_single_configuration:
  assumes "length l = length q" and "length u = length q"
  shows "evaluate (BoxConst True l u) [q] with_jacobian
           = Inr ([map2 (\<lambda>a b. a - b) q l @ map2 (\<lambda>a b. a - b) u q],
                  if with_jacobian
                  then Jacobian [eye (length q) @ map (map uminus) (eye (length q))]
                  else dummy_jacobian)"
  using assms
  by (simp add: BoxConst_evaluate_def mat_sub_vec_single vec_sub_mat_single reshape_rows_def
        chunks_def n_rows_def n_cols_def Let_def)

subsection \<open>Where the placeholder is returned\<close>

text \<open>
  Every class other than \<^verbatim>\<open>PointCollFreeConst\<close> and \<^verbatim>\<open>PoseConstraint\<close> returns the
  placeholder when \<open>with_jacobian\<close> is false; \<^verbatim>\<open>PoseConstraint\<close> returns the Jacobian
  of its kinematics map.
\<close>

lemma placeholder_classes:
  assumes "evaluate c qs False = Inr (f, j)"
    and "\<forall>b s. c \<noteq> PointCollFreeConst b s" and "\<forall>b ps k. c \<noteq> PoseConstraint b ps k"
  shows "j = dummy_jacobian"
  using assms
  by (cases c)
     (auto simp: BoxConst_evaluate_def ConfigPointConst_evaluate_def CompositeConst_combine_def
        Let_def split: if_splits sum.splits prod.splits)

lemma PoseConstraint_returns_jacobian:
  "evaluate (PoseConstraint True [[0]]
       \<lparr>n_feature = 1, robot_state = None, fk = (\<lambda>r qs. (concat qs, [1]))\<rparr>) [[2]] False
     = Inr ([[2]], Jacobian [[[1]]])"
  by code_simp

subsection \<open>A query without a guide, for every index order\<close>

text \<open>
  On a case base of one case without trajectory, with \<open>knn = 1\<close> and threshold 2, the
  result is abnormal and the internal solver is not called, for every \<open>argsort\<close>,
  internal solver and abnormal result.
\<close>

lemma is_argsort_single: "is_argsort [x] idxs \<Longrightarrow> idxs = [0]"
proof -
  assume a: "is_argsort [x] idxs"
  then have "length idxs = 1" using is_argsort_length [OF a] by simp
  then obtain i where "idxs = [i]" by (cases idxs) auto
  with a show ?thesis by (auto simp: is_argsort_def)
qed

lemma solve_without_guide_any_order:
  assumes "is_argsort [0] (argsort [0])"
  shows "NearestNeigborSolver_solve argsort internal_solve abnormal
           \<lparr>vec_descs = [[0]], trajectories = [None], knn = 1, infeasibility_threshold = 2\<rparr>
           (Some [0])
         = Inr (abnormal, [])"
proof -
  have d: "sqdists [[0]] [0] = Inr [0]" by code_simp
  have "argsort [0] = [0]" using assms by (rule is_argsort_single)
  then show ?thesis
    by (simp add: NearestNeigborSolver_solve_def knn_trajectories_def d slice_to_def)
qed

subsection \<open>Calibration when the distances from each case are pairwise different\<close>

text \<open>
  When, for each case, the squared distances from it to the cases of the case base
  are pairwise different (so that no two cases share a feature vector, and sorting
  by distance leaves no choice), the index left out by \<open>init\<close> is the case's own, and
  the threshold \<open>init\<close> chooses is the calibrated one of the specification, for every
  \<open>knn\<close> of at least 2.
\<close>

lemma sqdists_same_length:
  assumes "\<forall>r \<in> set descs. length r = length desc"
  shows "sqdists descs desc = Inr (map (\<lambda>r. sqdist r desc) descs)"
proof -
  have "mat_sub_vec descs desc = Inr (map (\<lambda>r. map2 (\<lambda>a b. a - b) r desc) descs)"
    unfolding mat_sub_vec_def using assms
    by (intro mapM_total) (simp add: broadcast2_def)
  moreover have "\<And>r. sum_list (map (\<lambda>x. x ^ 2) (map2 (\<lambda>a b. a - b) r desc)) = sqdist r desc"
    by (simp add: sqdist_def comp_def split_def)
  ultimately show ?thesis
    by (simp add: sqdists_def comp_def)
qed

lemma sqdist_nonneg: "0 \<le> sqdist u v"
  by (auto simp: sqdist_def intro!: sum_list_nonneg)

lemma sqdist_eq_0_iff: "length u = length v \<Longrightarrow> sqdist u v = 0 \<longleftrightarrow> u = v"
proof (induction u v rule: list_induct2)
  case Nil
  then show ?case by (simp add: sqdist_def)
next
  case (Cons a u b v)
  have s: "sqdist (a # u) (b # v) = (a - b) ^ 2 + sqdist u v"
    by (simp add: sqdist_def)
  have "(a - b) ^ 2 + sqdist u v = 0 \<longleftrightarrow> (a - b) ^ 2 = 0 \<and> sqdist u v = 0"
    using sqdist_nonneg [of u v] by (intro add_nonneg_eq_0_iff) auto
  with Cons s show ?case by auto
qed

lemma sorted_least_first:
  assumes "sorted (map f xs)" and "distinct xs" and "i \<in> set xs"
    and "\<forall>j \<in> set xs. j \<noteq> i \<longrightarrow> f i < (f j :: real)"
  shows "xs = i # filter (\<lambda>j. j \<noteq> i) xs"
proof (cases xs)
  case Nil
  with assms show ?thesis by simp
next
  case (Cons x rest)
  have "x = i"
  proof (rule ccontr)
    assume "x \<noteq> i"
    then have "f i < f x" and "i \<in> set rest" using assms Cons by auto
    moreover have "f x \<le> f i" using assms(1) Cons \<open>i \<in> set rest\<close> by auto
    ultimately show False by simp
  qed
  moreover have "filter (\<lambda>j. j \<noteq> i) rest = rest"
    using assms(2) Cons \<open>x = i\<close> by (auto simp: filter_id_conv)
  ultimately show ?thesis using Cons by simp
qed

lemma stable_argsort_self_first:
  assumes "i < length ds" and "\<forall>j < length ds. j \<noteq> i \<longrightarrow> ds ! i < ds ! j"
  shows "stable_argsort ds
           = i # sort_key (\<lambda>j. ds ! j) (filter (\<lambda>j. j \<noteq> i) [0..<length ds])"
proof -
  have "stable_argsort ds = i # filter (\<lambda>j. j \<noteq> i) (stable_argsort ds)"
    using assms is_argsort_stable [of ds]
    by (intro sorted_least_first [where f = "\<lambda>j. ds ! j"]) (auto simp: is_argsort_def)
  then show ?thesis
    by (simp add: stable_argsort_def filter_sort)
qed

lemma is_argsort_unique:
  assumes "distinct ds" and "is_argsort ds a" and "is_argsort ds b"
  shows "a = b"
proof -
  have inj: "inj_on (\<lambda>i. ds ! i) {0..<length ds}"
    using assms(1) by (auto simp: inj_on_def nth_eq_iff_index_eq)
  have "map (\<lambda>i. ds ! i) a = map (\<lambda>i. ds ! i) b"
    using assms(2,3) inj
    by (intro sorted_distinct_set_unique) (auto simp: is_argsort_def distinct_map)
  then show ?thesis
    using inj assms(2,3) inj_on_map_eq_map [of "\<lambda>i. ds ! i" a b]
    by (simp add: is_argsort_def)
qed

lemma sort_key_cong_on:
  "(\<And>x. x \<in> set xs \<Longrightarrow> f x = g x) \<Longrightarrow> sort_key f xs = sort_key g xs"
proof (induction xs)
  case Nil
  then show ?case by simp
next
  case (Cons x xs)
  have ins: "\<And>ys. (\<And>y. y \<in> set ys \<Longrightarrow> f y = g y) \<Longrightarrow> insort_key f x ys = insort_key g x ys"
  proof -
    fix ys assume "\<And>y. y \<in> set ys \<Longrightarrow> f y = g y"
    then show "insort_key f x ys = insort_key g x ys"
      using Cons.prems [of x] by (induction ys) auto
  qed
  have "sort_key f xs = sort_key g xs" using Cons by simp
  moreover have "insort_key f x (sort_key g xs) = insort_key g x (sort_key g xs)"
    using Cons.prems by (intro ins) simp
  ultimately show ?case by simp
qed

lemma spec_neighbours_in_range: "j \<in> set (spec_neighbours dataset k i) \<Longrightarrow> j < length dataset"
  by (auto simp: spec_neighbours_def dest!: in_set_takeD)

lemma case_mismatch_spec:
  assumes ok: "is_argsort ds' (argsort ds')"
    and ds': "ds' = map (\<lambda>e. sqdist (fst e) (fst (dataset ! i))) dataset"
    and dist: "distinct ds'"
    and len: "\<forall>e \<in> set dataset. length (fst e) = d"
    and i: "i < length dataset" and k: "0 \<le> k" and t: "0 \<le> t"
  shows "case_mismatch argsort (map fst dataset) (map snd dataset) k t (dataset ! i)
           = Inr ((nat t \<le> length (filter (\<lambda>j. snd (dataset ! j) = None)
                                      (spec_neighbours dataset (nat k) i)))
                  \<noteq> (snd (dataset ! i) = None))"
proof -
  define desc where "desc = fst (dataset ! i)"
  define ds where "ds = map (\<lambda>r. sqdist r desc) (map fst dataset)"
  have same: "ds = ds'" by (simp add: ds_def ds' desc_def comp_def)
  have m: "length ds = length dataset" by (simp add: ds_def)
  have nth: "\<And>j. j < length dataset \<Longrightarrow> ds ! j = sqdist (fst (dataset ! j)) desc"
    by (simp add: ds_def)
  have sq: "sqdists (map fst dataset) desc = Inr ds"
    unfolding ds_def using len i by (intro sqdists_same_length) (auto simp: desc_def)
  have self: "ds ! i = 0"
    using i by (simp add: nth desc_def sqdist_eq_0_iff)
  have others: "\<forall>j < length ds. j \<noteq> i \<longrightarrow> ds ! i < ds ! j"
  proof (intro allI impI)
    fix j assume j: "j < length ds" "j \<noteq> i"
    have "ds ! j \<noteq> ds ! i"
      using dist same i j m by (simp add: nth_eq_iff_index_eq)
    moreover have "0 \<le> ds ! j"
      using sqdist_nonneg [of "fst (dataset ! j)" desc] j m by (simp add: nth)
    ultimately show "ds ! i < ds ! j" using self by simp
  qed
  have "argsort ds = stable_argsort ds"
    using ok dist same is_argsort_stable [of ds] by (intro is_argsort_unique [of ds]) simp_all
  also have "stable_argsort ds
               = i # sort_key (\<lambda>j. ds ! j) (filter (\<lambda>j. j \<noteq> i) [0..<length ds])"
    using i m others by (intro stable_argsort_self_first) auto
  also have "sort_key (\<lambda>j. ds ! j) (filter (\<lambda>j. j \<noteq> i) [0..<length ds])
               = sort_key (\<lambda>j. sqdist (fst (dataset ! j)) desc)
                   (filter (\<lambda>j. j \<noteq> i) [0..<length dataset])"
    unfolding m by (intro sort_key_cong_on) (auto simp: nth)
  finally have sorted: "argsort ds
      = i # sort_key (\<lambda>j. sqdist (fst (dataset ! j)) desc)
              (filter (\<lambda>j. j \<noteq> i) [0..<length dataset])" .
  have nearest: "slice_from_1_to (k + 1) (argsort ds) = spec_neighbours dataset (nat k) i"
    using k by (simp add: sorted slice_from_1_to_def slice_to_def spec_neighbours_def
                  desc_def nat_add_distrib)
  have count: "filter (\<lambda>idx. map snd dataset ! idx = None) (spec_neighbours dataset (nat k) i)
                 = filter (\<lambda>j. snd (dataset ! j) = None) (spec_neighbours dataset (nat k) i)"
    by (intro filter_cong) (auto dest: spec_neighbours_in_range)
  have ge: "\<And>n. (t \<le> int n) \<longleftrightarrow> (nat t \<le> n)"
    using t by auto
  show ?thesis
    using sq by (simp add: case_mismatch_def desc_def [symmetric] nearest count ge Let_def)
qed

lemma mapM_nth:
  "(\<And>i. i < length xs \<Longrightarrow> f (xs ! i) = Inr (g i)) \<Longrightarrow> mapM f xs = Inr (map g [0..<length xs])"
proof (induction xs arbitrary: g)
  case Nil
  then show ?case by simp
next
  case (Cons x xs)
  have "f x = Inr (g 0)" using Cons.prems [of 0] by simp
  moreover have "mapM f xs = Inr (map (\<lambda>i. g (Suc i)) [0..<length xs])"
    using Cons.prems by (intro Cons.IH) force
  ultimately show ?case
    by (simp add: map_upt_Suc del: upt_Suc)
qed

lemma threshold_error_spec:
  assumes ok: "\<And>ds. is_argsort ds (argsort ds)"
    and dist: "\<forall>i < length dataset.
                 distinct (map (\<lambda>e. sqdist (fst e) (fst (dataset ! i))) dataset)"
    and len: "\<forall>e \<in> set dataset. length (fst e) = d"
    and k: "0 \<le> k" and t: "0 \<le> t"
  shows "threshold_error argsort dataset (map fst dataset) (map snd dataset) k t
           = Inr (spec_mismatches dataset (nat k) (nat t))"
proof -
  have "mapM (case_mismatch argsort (map fst dataset) (map snd dataset) k t) dataset
          = Inr (map (\<lambda>i. (nat t \<le> length (filter (\<lambda>j. snd (dataset ! j) = None)
                                              (spec_neighbours dataset (nat k) i)))
                          \<noteq> (snd (dataset ! i) = None)) [0..<length dataset])"
  proof (intro mapM_nth)
    fix i assume i: "i < length dataset"
    show "case_mismatch argsort (map fst dataset) (map snd dataset) k t (dataset ! i)
            = Inr ((nat t \<le> length (filter (\<lambda>j. snd (dataset ! j) = None)
                                       (spec_neighbours dataset (nat k) i)))
                   \<noteq> (snd (dataset ! i) = None))"
      using dist i len k t
      by (intro case_mismatch_spec [where d = d and argsort = argsort and dataset = dataset
              and i = i, OF ok refl]) auto
  qed
  then show ?thesis
    by (simp add: threshold_error_def spec_mismatches_def filter_map comp_def)
qed

lemma thresholds_upt: "1 \<le> k \<Longrightarrow> [1..k - 1] = map int [1..<nat k]"
  by (auto intro!: nth_equalityI)

lemma argmin_first_least:
  assumes "es \<noteq> []"
  shows "\<exists>i. argmin es = Inr i \<and> i < length es \<and> (\<forall>j < length es. es ! i \<le> es ! j)
             \<and> (\<forall>j < i. es ! i < es ! j)"
proof -
  obtain e es' where es: "es = e # es'" using assms by (cases es) auto
  define m where "m = Min (set es)"
  define i where "i = length (takeWhile (\<lambda>x. x \<noteq> m) es)"
  have fold: "fold min es' e = m"
    unfolding m_def es by (rule Min.set_eq_fold [symmetric])
  have run: "argmin es = Inr i"
    by (simp add: argmin_def es fold i_def)
  have "m \<in> set es" unfolding m_def using assms by (intro Min_in) auto
  then have "takeWhile (\<lambda>x. x \<noteq> m) es \<noteq> es"
    by (auto simp: takeWhile_eq_all_conv)
  then have lt: "i < length es"
    unfolding i_def using length_takeWhile_le [of "\<lambda>x. x \<noteq> m" es]
    by (metis le_neq_implies_less takeWhile_eq_take take_all_iff order_refl)
  have at: "es ! i = m"
    using nth_length_takeWhile [of "\<lambda>x. x \<noteq> m" es] lt by (simp add: i_def)
  have least: "\<And>j. j < length es \<Longrightarrow> m \<le> es ! j"
    unfolding m_def by (intro Min_le) auto
  have before: "\<And>j. j < i \<Longrightarrow> es ! j \<noteq> m"
  proof -
    fix j assume j: "j < i"
    then have "takeWhile (\<lambda>x. x \<noteq> m) es ! j \<in> set (takeWhile (\<lambda>x. x \<noteq> m) es)"
      by (simp add: i_def)
    then have "takeWhile (\<lambda>x. x \<noteq> m) es ! j \<noteq> m"
      by (auto dest: set_takeWhileD)
    then show "es ! j \<noteq> m"
      using j by (simp add: i_def takeWhile_nth)
  qed
  have "\<forall>j < i. es ! i < es ! j"
  proof (intro allI impI)
    fix j assume j: "j < i"
    then have "m \<le> es ! j" using lt by (intro least) simp
    with before [OF j] show "es ! i < es ! j" by (simp add: at)
  qed
  with run lt at least show ?thesis by auto
qed

lemma init_calibrates_distinct_distances:
  assumes ok: "\<And>ds. is_argsort ds (argsort ds)"
    and k: "2 \<le> k" and ne: "dataset \<noteq> []"
    and dist: "\<forall>i < length dataset.
                 distinct (map (\<lambda>e. sqdist (fst e) (fst (dataset ! i))) dataset)"
    and len: "\<forall>e \<in> set dataset. length (fst e) = d"
  shows "\<exists>t. init argsort dataset k None
               = Inr \<lparr>vec_descs = map fst dataset, trajectories = map snd dataset, knn = k,
                      infeasibility_threshold = real t\<rparr>
             \<and> spec_is_calibrated dataset (nat k) t"
proof -
  define mis where "mis = spec_mismatches dataset (nat k)"
  define es where "es = map mis [1..<nat k]"
  have arr: "np_array (map fst dataset) = Inr (map fst dataset)"
    using len ne by (cases dataset) (auto simp: np_array_def)
  have "mapM (threshold_error argsort dataset (map fst dataset) (map snd dataset) k) [1..k - 1]
          = Inr (map (\<lambda>t. spec_mismatches dataset (nat k) (nat t)) [1..k - 1])"
    using dist len k by (intro mapM_total threshold_error_spec [where d = d] ok) auto
  also have "map (\<lambda>t. spec_mismatches dataset (nat k) (nat t)) [1..k - 1] = es"
    using k by (simp add: thresholds_upt es_def mis_def comp_def)
  finally have errors:
    "mapM (threshold_error argsort dataset (map fst dataset) (map snd dataset) k) [1..k - 1] = Inr es" .
  have len_es: "length es = nat k - 1" by (simp add: es_def)
  then have "es \<noteq> []" using k by auto
  from argmin_first_least [OF this] obtain i where
    i: "argmin es = Inr i" "i < length es" "\<forall>j < length es. es ! i \<le> es ! j"
       "\<forall>j < i. es ! i < es ! j"
    by blast
  have nth_es: "\<And>j. j < length es \<Longrightarrow> es ! j = mis (Suc j)"
    by (simp add: es_def)
  have chosen: "real_of_int ([1..k - 1] ! i) = real (Suc i)"
    using i(2) len_es by simp
  have run: "init argsort dataset k None
               = Inr \<lparr>vec_descs = map fst dataset, trajectories = map snd dataset, knn = k,
                      infeasibility_threshold = real (Suc i)\<rparr>"
    using ne by (simp add: init_def arr errors i(1) Let_def chosen del: of_nat_Suc)
  have range: "Suc i \<in> {1..<nat k}"
    using i(2) len_es by auto
  have least: "list_all (\<lambda>t'. mis (Suc i) \<le> mis t') [1..<nat k]"
  proof (unfold list_all_iff, intro ballI)
    fix t' assume "t' \<in> set [1..<nat k]"
    then have "1 \<le> t'" and "t' < nat k" by auto
    then obtain j where j: "t' = Suc j" "j < length es"
      using len_es by (cases t') simp_all
    then show "mis (Suc i) \<le> mis t'"
      using i(2,3) nth_es by metis
  qed
  have first: "list_all (\<lambda>t'. mis (Suc i) < mis t') [1..<Suc i]"
  proof (unfold list_all_iff, intro ballI)
    fix t' assume "t' \<in> set [1..<Suc i]"
    then have "1 \<le> t'" and "t' < Suc i" by auto
    then obtain j where j: "t' = Suc j" "j < i"
      by (cases t') simp_all
    then show "mis (Suc i) < mis t'"
      using i(2,4) nth_es [of i] nth_es [of j] by auto
  qed
  have "spec_is_calibrated dataset (nat k) (Suc i)"
    unfolding spec_is_calibrated_def mis_def [symmetric]
    using range least first by simp
  with run show ?thesis by blast
qed


text \<open>Without a candidate threshold, that is for \<open>knn\<close> of at most 1, \<open>init\<close> fails.\<close>

lemma init_without_candidates: "k \<le> 1 \<Longrightarrow> init argsort dataset k None = Inl ValueError"
  by (auto simp: init_def argmin_def np_array_def split: sum.splits if_splits)

end
